theory Spec2Isabelle
  imports Complex_Main "HOL-Library.Sublist" "HOL-Library.AList"
begin

section \<open>Python strings\<close>

text \<open>
  A Python \<open>str\<close> is modelled as a \<^typ>\<open>string\<close>. The characters of the model are
  8-bit; on them the regular-expression class \<open>\d\<close> is exactly the ten ASCII digits.
\<close>

definition startswith :: "string \<Rightarrow> string \<Rightarrow> bool" where
  "startswith s p = prefix p s"

definition endswith :: "string \<Rightarrow> string \<Rightarrow> bool" where
  "endswith s p = suffix p s"

text \<open>
  \<open>s.replace(old, new)\<close>: the non-overlapping occurrences of \<open>old\<close> are replaced from
  left to right. With an empty \<open>old\<close> Python puts \<open>new\<close> before every character and at
  the end.
\<close>

function replace :: "string \<Rightarrow> string \<Rightarrow> string \<Rightarrow> string" where
  "replace s old new =
     (if old = [] then concat (map (\<lambda>c. new @ [c]) s) @ new
      else if s = [] then []
      else if prefix old s then new @ replace (drop (length old) s) old new
      else hd s # replace (tl s) old new)"
  by pat_completeness auto
termination
  by (relation "measure (\<lambda>(s, old, new). length s)") auto

declare replace.simps [simp del]

section \<open>Version Extractor\<close>

text \<open>
  \<open>re.search(r'-(\d+\.\d+\.\d+)\.zip$', filename)\<close>, element by element.
  \<open>lit\<close> matches a literal, \<open>digits1\<close> is \<open>\d+\<close>, \<open>at_end\<close> is \<open>$\<close>.

  \<open>\d+\<close> is taken greedily and never given back: each \<open>\d+\<close> of the pattern is followed
  by a literal dot, which is no digit, so a shorter run of digits is followed by a digit
  and can never lead to a match.

  Without the MULTILINE flag, Python's \<open>$\<close> matches at the very end of the string and
  also just before a line feed that is the last character of the string.
\<close>

definition is_digit :: "char \<Rightarrow> bool" where
  "is_digit c = (c \<in> set ''0123456789'')"

definition lit :: "string \<Rightarrow> string \<Rightarrow> string option" where
  "lit p s = (if prefix p s then Some (drop (length p) s) else None)"

definition digits1 :: "string \<Rightarrow> (string \<times> string) option" where
  "digits1 s =
     (if takeWhile is_digit s = [] then None
      else Some (takeWhile is_digit s, dropWhile is_digit s))"

definition at_end :: "string \<Rightarrow> bool" where
  "at_end s = (s = [] \<or> s = [CHR 0x0A])"

text \<open>The pattern matched at the start of \<open>s\<close>; the result is group 1.\<close>

definition match_here :: "string \<Rightarrow> string option" where
  "match_here s =
     (case lit ''-'' s of None \<Rightarrow> None | Some r0 \<Rightarrow>
     (case digits1 r0 of None \<Rightarrow> None | Some (x, r1) \<Rightarrow>
     (case lit ''.'' r1 of None \<Rightarrow> None | Some r2 \<Rightarrow>
     (case digits1 r2 of None \<Rightarrow> None | Some (y, r3) \<Rightarrow>
     (case lit ''.'' r3 of None \<Rightarrow> None | Some r4 \<Rightarrow>
     (case digits1 r4 of None \<Rightarrow> None | Some (z, r5) \<Rightarrow>
     (case lit ''.zip'' r5 of None \<Rightarrow> None | Some r6 \<Rightarrow>
      if at_end r6 then Some (x @ ''.'' @ y @ ''.'' @ z) else None)))))))"

text \<open>\<open>re.search\<close> tries the start positions from left to right; the first match wins.\<close>

fun re_search :: "string \<Rightarrow> string option" where
  "re_search [] = match_here []"
| "re_search (c # cs) =
     (case match_here (c # cs) of Some g \<Rightarrow> Some g | None \<Rightarrow> re_search cs)"

definition extract_version_from_filename :: "string \<Rightarrow> string option" where
  "extract_version_from_filename filename =
     (case re_search filename of Some g \<Rightarrow> Some g | None \<Rightarrow> None)"

section \<open>Python values\<close>

text \<open>
  The values \<open>json.loads\<close> produces: \<open>None\<close>, booleans, integers, floats, strings,
  lists and dictionaries with string keys. A float is represented by its exact rational
  value (the sign of zero and the non-finite floats are not represented). In a
  dictionary given as an association list, the first binding of a key is its value.
\<close>

datatype pyval =
    PNone
  | PBool bool
  | PInt int
  | PFloat rat
  | PStr string
  | PList "pyval list"
  | PDict "(string \<times> pyval) list"

datatype pyerror = AttributeError | TypeError | KeyError | ValueError

text \<open>\<open>d.get(k)\<close> on a dictionary: the value, or \<open>None\<close> when the key is missing.\<close>

definition dict_get :: "(string \<times> pyval) list \<Rightarrow> string \<Rightarrow> pyval" where
  "dict_get d k = (case map_of d k of None \<Rightarrow> PNone | Some v \<Rightarrow> v)"

text \<open>Truth value of an object, as \<open>not x\<close> tests it.\<close>

fun truthy :: "pyval \<Rightarrow> bool" where
  "truthy PNone = False"
| "truthy (PBool b) = b"
| "truthy (PInt i) = (i \<noteq> 0)"
| "truthy (PFloat q) = (q \<noteq> 0)"
| "truthy (PStr s) = (s \<noteq> [])"
| "truthy (PList xs) = (xs \<noteq> [])"
| "truthy (PDict d) = (d \<noteq> [])"

text \<open>
  A value used as a dictionary key. Lists and dictionaries are unhashable
  (\<open>TypeError\<close>); booleans and numbers are equal as keys when they are equal in value
  (\<open>True == 1 == 1.0\<close>).
\<close>

datatype pykey = KNone | KStr string | KNum rat

fun hash_key :: "pyval \<Rightarrow> pyerror + pykey" where
  "hash_key PNone = Inr KNone"
| "hash_key (PBool b) = Inr (KNum (if b then 1 else 0))"
| "hash_key (PInt i) = Inr (KNum (of_int i))"
| "hash_key (PFloat q) = Inr (KNum q)"
| "hash_key (PStr s) = Inr (KStr s)"
| "hash_key (PList xs) = Inl TypeError"
| "hash_key (PDict d) = Inl TypeError"

text \<open>
  \<open>str(v)\<close>, which \<open>str.format\<close> and f-strings apply to a value with an empty format
  specification. The text of a number, list or dictionary is left to the parameter
  \<open>r\<close>.
\<close>

fun py_str :: "(pyval \<Rightarrow> string) \<Rightarrow> pyval \<Rightarrow> string" where
  "py_str r (PStr s) = s"
| "py_str r PNone = ''None''"
| "py_str r (PBool b) = (if b then ''True'' else ''False'')"
| "py_str r v = r v"

text \<open>
  \<open>template.format(**args)\<close> for a template whose replacement fields are plain names
  \<open>{name}\<close>: text outside the braces is copied, a field is replaced by the argument of
  that name, and the inserted text is not scanned again. A field without an argument
  raises \<open>KeyError\<close>, an unclosed brace \<open>ValueError\<close>.
\<close>

function str_format :: "string \<Rightarrow> (string \<times> string) list \<Rightarrow> pyerror + string" where
  "str_format [] args = Inr []"
| "str_format (c # cs) args =
     (if c = CHR ''{'' then
        (if CHR ''}'' \<notin> set cs then Inl ValueError
         else (case map_of args (takeWhile (\<lambda>d. d \<noteq> CHR ''}'') cs) of
                 None \<Rightarrow> Inl KeyError
               | Some v \<Rightarrow>
                  (case str_format (drop 1 (dropWhile (\<lambda>d. d \<noteq> CHR ''}'') cs)) args of
                     Inl e \<Rightarrow> Inl e
                   | Inr rest \<Rightarrow> Inr (v @ rest))))
      else (case str_format cs args of Inl e \<Rightarrow> Inl e | Inr rest \<Rightarrow> Inr (c # rest)))"
  by pat_completeness auto
termination
  by (relation "measure (\<lambda>(t, args). length t)")
     (auto simp: less_Suc_eq_le intro: le_trans [OF diff_le_self length_dropWhile_le])

section \<open>Constants\<close>

definition DOWNLOAD_URL_BASE :: string where
  "DOWNLOAD_URL_BASE =
     ''https://raw.githubusercontent.com/cielo-h/vpmRepo/master/{plugin_name}/{filename}''"

record repo_info =
  ri_name :: string
  ri_id :: string
  ri_url :: string
  ri_author :: string

definition REPO_INFO :: repo_info where
  "REPO_INFO = \<lparr>ri_name = ''Cielo Repo'', ri_id = ''vpm.cielo-h'',
     ri_url = ''https://cielo-h.github.io/vpmRepo/index.json'', ri_author = ''cielo-h''\<rparr>"

section \<open>Metadata Reader\<close>

text \<open>
  An archive on disk, as \<open>ZipFile(zip_path, 'r')\<close> sees it: either opening it raises
  (with the exception's text), or it has a list of entries in central-directory order.
  An entry is its stored name and what
  \<open>json.loads(z.read(name).decode('utf-8'))\<close> gives for it: an exception (its text) or
  the parsed value.
\<close>

datatype archive =
    Unreadable string
  | Zip "(string \<times> (string + pyval)) list"

text \<open>
  The loop over \<open>z.namelist()\<close>: the first name that ends with \<open>package.json\<close> and has no
  slash left once every \<open>package.json\<close> is removed from it.
\<close>

definition is_package_json :: "string \<Rightarrow> bool" where
  "is_package_json name =
     (endswith name ''package.json'' \<and> CHR ''/'' \<notin> set (replace name ''package.json'' []))"

fun find_package_json :: "string list \<Rightarrow> string option" where
  "find_package_json [] = None"
| "find_package_json (name # names) =
     (if is_package_json name then Some name else find_package_json names)"

text \<open>
  \<open>z.read(name)\<close> looks the name up in the archive's name table, where a later entry of
  the same name has replaced an earlier one.
\<close>

definition zip_read :: "(string \<times> (string + pyval)) list \<Rightarrow> string \<Rightarrow> string + pyval" where
  "zip_read entries name =
     (case map_of (rev entries) name of None \<Rightarrow> Inl ''KeyError'' | Some c \<Rightarrow> c)"

text \<open>
  The result is the returned value (\<open>None\<close> is \<^const>\<open>PNone\<close>) and the lines printed.
  Every exception inside the \<open>try\<close> block is caught.
\<close>

definition extract_package_info :: "string \<Rightarrow> archive \<Rightarrow> pyval \<times> string list" where
  "extract_package_info zip_path ar =
     (case ar of
        Unreadable e \<Rightarrow> (PNone, [''Error reading '' @ zip_path @ '': '' @ e])
      | Zip entries \<Rightarrow>
         (case find_package_json (map fst entries) of
            None \<Rightarrow> (PNone, [''Warning: package.json not found in '' @ zip_path])
          | Some package_json_path \<Rightarrow>
             (case zip_read entries package_json_path of
                Inl e \<Rightarrow> (PNone, [''Error reading '' @ zip_path @ '': '' @ e])
              | Inr package_data \<Rightarrow> (package_data, []))))"

section \<open>Package Scanner\<close>

text \<open>
  The scanned tree, as \<open>os.listdir('.')\<close>, \<open>os.path.isdir\<close> and \<open>os.listdir(plugin_dir)\<close>
  see it: the items of the root in iteration order, each a plain file or a directory with
  its entries in iteration order. An entry of a directory is its name and what opening
  it as an archive gives (a subdirectory or a damaged file is \<^const>\<open>Unreadable\<close>).
\<close>

datatype node = File | Dir "(string \<times> archive) list"

type_synonym tree = "(string \<times> node) list"

text \<open>
  A Version Record is a dictionary with its keys in insertion order; a package is the
  dictionary \<open>{"versions": {...}}\<close>; \<open>packages\<close> maps package keys to packages. An
  assignment \<open>d[k] = v\<close> is \<^const>\<open>AList.update\<close>: an existing key keeps its place, a new
  key goes to the end.
\<close>

type_synonym version_info = "(string \<times> pyval) list"

record package =
  versions :: "(string \<times> version_info) list"

record scan_state =
  packages :: "(pykey \<times> package) list"
  stdout :: "string list"

definition print :: "string \<Rightarrow> scan_state \<Rightarrow> scan_state" where
  "print line st = st\<lparr>stdout := stdout st @ [line]\<rparr>"

text \<open>\<open>os.path.join\<close> of a directory name and a file name from \<open>os.listdir\<close>.\<close>

definition path_join :: "string \<Rightarrow> string \<Rightarrow> string" where
  "path_join d f = d @ ''/'' @ f"

text \<open>Lines 98 to 113: the record with its six fixed keys, then the two optional ones.\<close>

definition build_version_info ::
  "(string \<times> pyval) list \<Rightarrow> string \<Rightarrow> string \<Rightarrow> version_info" where
  "build_version_info package_info version download_url =
     (let version_info =
        [(''name'', dict_get package_info ''name''),
         (''displayName'', dict_get package_info ''displayName''),
         (''version'', PStr version),
         (''unity'', dict_get package_info ''unity''),
         (''description'', dict_get package_info ''description''),
         (''url'', PStr download_url)];
      version_info =
        (case map_of package_info ''vpmDependencies'' of
           None \<Rightarrow> version_info
         | Some v \<Rightarrow> AList.update ''vpmDependencies'' v version_info);
      version_info =
        (case map_of package_info ''author'' of
           None \<Rightarrow> version_info
         | Some v \<Rightarrow> AList.update ''author'' v version_info)
      in version_info)"

text \<open>
  Lines 80 to 116, for metadata that is a dictionary: the name check, the package entry,
  the URL, the record and its insertion.
\<close>

definition add_version ::
  "(pyval \<Rightarrow> string) \<Rightarrow> string \<Rightarrow> string \<Rightarrow> string \<Rightarrow> (string \<times> pyval) list \<Rightarrow>
     scan_state \<Rightarrow> pyerror + scan_state" where
  "add_version r zip_path filename version package_info st =
     (let package_name = dict_get package_info ''name'' in
      if \<not> truthy package_name
      then Inr (print (''Warning: No package name found in '' @ zip_path) st)
      else
        (case hash_key package_name of
           Inl e \<Rightarrow> Inl e
         | Inr key \<Rightarrow>
            (let pkgs =
               (if key \<notin> fst ` set (packages st)
                then AList.update key \<lparr>versions = []\<rparr> (packages st)
                else packages st)
             in
               (case str_format DOWNLOAD_URL_BASE
                       [(''plugin_name'', py_str r (dict_get package_info ''displayName'')),
                        (''filename'', filename)] of
                  Inl e \<Rightarrow> Inl e
                | Inr download_url \<Rightarrow>
                   (let version_info = build_version_info package_info version download_url in
                      (case map_of pkgs key of
                         None \<Rightarrow> Inl KeyError
                       | Some p \<Rightarrow>
                          Inr (print (''Added: '' @ py_str r package_name @ '' version '' @ version)
                                (st\<lparr>packages :=
                                   AList.update key
                                     (p\<lparr>versions := AList.update version version_info (versions p)\<rparr>)
                                     pkgs\<rparr>))))))))"

text \<open>
  The body of the inner loop (lines 61 to 116) for one directory entry. On metadata
  that is neither \<open>None\<close> nor a dictionary, \<open>package_info.get\<close> raises \<open>AttributeError\<close>.
\<close>

definition process_file ::
  "(pyval \<Rightarrow> string) \<Rightarrow> string \<Rightarrow> string \<times> archive \<Rightarrow> scan_state \<Rightarrow> pyerror + scan_state" where
  "process_file r plugin_dir entry st =
     (let filename = fst entry in
      if \<not> endswith filename ''.zip'' then Inr st
      else if \<not> startswith filename ''vpm.'' then Inr st
      else
        (let zip_path = path_join plugin_dir filename in
           (case extract_version_from_filename filename of
              None \<Rightarrow> Inr (print (''Warning: Could not extract version from '' @ filename) st)
            | Some version \<Rightarrow>
               (case extract_package_info zip_path (snd entry) of
                  (package_info, out) \<Rightarrow>
                    (let st1 = st\<lparr>stdout := stdout st @ out\<rparr> in
                       (case package_info of
                          PNone \<Rightarrow> Inr st1
                        | PDict d \<Rightarrow> add_version r zip_path filename version d st1
                        | _ \<Rightarrow> Inl AttributeError))))))"

fun scan_files ::
  "(pyval \<Rightarrow> string) \<Rightarrow> string \<Rightarrow> (string \<times> archive) list \<Rightarrow> scan_state \<Rightarrow>
     pyerror + scan_state" where
  "scan_files r plugin_dir [] st = Inr st"
| "scan_files r plugin_dir (entry # entries) st =
     (case process_file r plugin_dir entry st of
        Inl e \<Rightarrow> Inl e
      | Inr st' \<Rightarrow> scan_files r plugin_dir entries st')"

text \<open>
  The body of the outer loop for one item of the root. A directory that \<open>os.path.isdir\<close>
  accepts exists, so the \<open>os.path.exists\<close> test passes.
\<close>

definition scan_item ::
  "(pyval \<Rightarrow> string) \<Rightarrow> string \<times> node \<Rightarrow> scan_state \<Rightarrow> pyerror + scan_state" where
  "scan_item r item st =
     (case snd item of
        File \<Rightarrow> Inr st
      | Dir entries \<Rightarrow>
         if startswith (fst item) ''.'' then Inr st
         else scan_files r (fst item) entries (print (''Scanning directory: '' @ fst item) st))"

fun scan_items :: "(pyval \<Rightarrow> string) \<Rightarrow> tree \<Rightarrow> scan_state \<Rightarrow> pyerror + scan_state" where
  "scan_items r [] st = Inr st"
| "scan_items r (item # items) st =
     (case scan_item r item st of
        Inl e \<Rightarrow> Inl e
      | Inr st' \<Rightarrow> scan_items r items st')"

definition scan_packages :: "(pyval \<Rightarrow> string) \<Rightarrow> tree \<Rightarrow> pyerror + scan_state" where
  "scan_packages r t = scan_items r t \<lparr>packages = [], stdout = []\<rparr>"

section \<open>Index Builder\<close>

record index_document =
  ix_name :: string
  ix_id :: string
  ix_url :: string
  ix_author :: string
  ix_packages :: "(pykey \<times> package) list"

definition generate_index :: "(pyval \<Rightarrow> string) \<Rightarrow> tree \<Rightarrow> pyerror + index_document" where
  "generate_index r t =
     (case scan_packages r t of
        Inl e \<Rightarrow> Inl e
      | Inr st \<Rightarrow>
         Inr \<lparr>ix_name = ri_name REPO_INFO, ix_id = ri_id REPO_INFO, ix_url = ri_url REPO_INFO,
              ix_author = ri_author REPO_INFO, ix_packages = packages st\<rparr>)"

section \<open>Notions used in the statements\<close>


text \<open>The two filename tests of the inner loop together.\<close>

definition qualifies :: "string \<Rightarrow> bool" where
  "qualifies filename = (endswith filename ''.zip'' \<and> startswith filename ''vpm.'')"

text \<open>The directory entries the two loops visit, each with its directory, in order.\<close>

definition scanned :: "tree \<Rightarrow> (string \<times> string \<times> archive) list" where
  "scanned t =
     concat (map (\<lambda>item. case snd item of
                            File \<Rightarrow> []
                          | Dir entries \<Rightarrow>
                             if startswith (fst item) ''.'' then []
                             else map (Pair (fst item)) entries) t)"

text \<open>What the Metadata Reader returns for an entry of directory \<open>d\<close>.\<close>

definition metadata_of :: "string \<Rightarrow> string \<times> archive \<Rightarrow> pyval" where
  "metadata_of d entry = fst (extract_package_info (path_join d (fst entry)) (snd entry))"

text \<open>
  \<open>packages[key]["versions"][version] = version_info\<close>, after the package entry has been
  created when it was missing.
\<close>

definition insert_version ::
  "pykey \<Rightarrow> string \<Rightarrow> version_info \<Rightarrow> (pykey \<times> package) list \<Rightarrow> (pykey \<times> package) list" where
  "insert_version key version version_info pkgs =
     (let pkgs1 =
        (if key \<notin> fst ` set pkgs then AList.update key \<lparr>versions = []\<rparr> pkgs else pkgs)
      in (case map_of pkgs1 key of
            None \<Rightarrow> pkgs1
          | Some p \<Rightarrow>
             AList.update key
               (p\<lparr>versions := AList.update version version_info (versions p)\<rparr>) pkgs1))"

text \<open>
  What one directory entry adds to the mapping when the loop body does not raise:
  nothing, or a Version Record at a package key and a version.
\<close>

definition contribution ::
  "(pyval \<Rightarrow> string) \<Rightarrow> string \<Rightarrow> string \<times> archive \<Rightarrow>
     ((pykey \<times> string) \<times> version_info) option" where
  "contribution r d entry =
     (if \<not> qualifies (fst entry) then None
      else
        (case extract_version_from_filename (fst entry) of
           None \<Rightarrow> None
         | Some version \<Rightarrow>
            (case metadata_of d entry of
               PDict info \<Rightarrow>
                 (if \<not> truthy (dict_get info ''name'') then None
                  else
                    (case hash_key (dict_get info ''name'') of
                       Inl e \<Rightarrow> None
                     | Inr key \<Rightarrow>
                        (case str_format DOWNLOAD_URL_BASE
                                [(''plugin_name'', py_str r (dict_get info ''displayName'')),
                                 (''filename'', fst entry)] of
                           Inl e \<Rightarrow> None
                         | Inr download_url \<Rightarrow>
                            Some ((key, version),
                                  build_version_info info version download_url))))
             | _ \<Rightarrow> None)))"

definition contributions ::
  "(pyval \<Rightarrow> string) \<Rightarrow> tree \<Rightarrow> ((pykey \<times> string) \<times> version_info) list" where
  "contributions r t = List.map_filter (\<lambda>de. contribution r (fst de) (snd de)) (scanned t)"

text \<open>\<open>packages[key]["versions"][version]\<close> as a lookup: the record, if there is one.\<close>

definition index_at :: "(pykey \<times> package) list \<Rightarrow> pykey \<times> string \<Rightarrow> version_info option" where
  "index_at pkgs kv =
     (case map_of pkgs (fst kv) of None \<Rightarrow> None | Some p \<Rightarrow> map_of (versions p) (snd kv))"

text \<open>
  The tree without its hidden directories and without the files whose name fails one of
  the two filename tests.
\<close>

definition prune :: "tree \<Rightarrow> tree" where
  "prune t =
     concat (map (\<lambda>item. case snd item of
                            File \<Rightarrow> [item]
                          | Dir entries \<Rightarrow>
                             if startswith (fst item) ''.'' then []
                             else [(fst item, Dir (filter (\<lambda>e. qualifies (fst e)) entries))]) t)"

text \<open>Keys are not repeated, in the package mapping and in every version mapping.\<close>

definition distinct_keys :: "(pykey \<times> package) list \<Rightarrow> bool" where
  "distinct_keys pkgs =
     (distinct (map fst pkgs) \<and> (\<forall>kp\<in>set pkgs. distinct (map fst (versions (snd kp)))))"

section \<open>The URL template\<close>

lemma url_expand:
  "str_format DOWNLOAD_URL_BASE [(''plugin_name'', p), (''filename'', f)] =
     Inr (''https://raw.githubusercontent.com/cielo-h/vpmRepo/master/'' @ p @ ''/'' @ f)"
  by (simp add: DOWNLOAD_URL_BASE_def)

section \<open>The Version Extractor's pattern\<close>

lemma digits1_run:
  assumes "x \<noteq> []" "\<forall>c\<in>set x. is_digit c" "\<not> is_digit c'"
  shows "digits1 (x @ c' # t) = Some (x, c' # t)"
  using assms by (simp add: digits1_def takeWhile_append2 dropWhile_append2)

lemma digits1_Some:
  "digits1 s = Some (x, t) \<Longrightarrow> s = x @ t \<and> x \<noteq> [] \<and> (\<forall>c\<in>set x. is_digit c)"
  by (auto simp: digits1_def split: if_splits dest: set_takeWhileD)

lemma lit_Some: "lit p s = Some t \<longleftrightarrow> s = p @ t"
  by (auto simp: lit_def prefix_def)

lemma not_digit_dot: "\<not> is_digit CHR ''.''"
  by (simp add: is_digit_def)

lemma not_digit_minus: "\<not> is_digit CHR ''-''"
  by (simp add: is_digit_def)

lemma match_here_intro:
  assumes "x \<noteq> []" "y \<noteq> []" "z \<noteq> []"
    "\<forall>c\<in>set x. is_digit c" "\<forall>c\<in>set y. is_digit c" "\<forall>c\<in>set z. is_digit c" "at_end t"
  shows "match_here (''-'' @ x @ ''.'' @ y @ ''.'' @ z @ ''.zip'' @ t) = Some (x @ ''.'' @ y @ ''.'' @ z)"
  using assms
  by (simp add: match_here_def lit_def digits1_run not_digit_dot)

lemma match_here_elim:
  assumes "match_here s = Some v"
  shows "\<exists>x y z t. s = ''-'' @ x @ ''.'' @ y @ ''.'' @ z @ ''.zip'' @ t \<and> v = x @ ''.'' @ y @ ''.'' @ z
     \<and> x \<noteq> [] \<and> y \<noteq> [] \<and> z \<noteq> [] \<and> (\<forall>c\<in>set x. is_digit c) \<and> (\<forall>c\<in>set y. is_digit c)
     \<and> (\<forall>c\<in>set z. is_digit c) \<and> at_end t"
proof -
  from assms obtain r0 x r1 r2 y r3 r4 z r5 r6 where
    "lit ''-'' s = Some r0" "digits1 r0 = Some (x, r1)" "lit ''.'' r1 = Some r2"
    "digits1 r2 = Some (y, r3)" "lit ''.'' r3 = Some r4" "digits1 r4 = Some (z, r5)"
    "lit ''.zip'' r5 = Some r6" "at_end r6" "v = x @ ''.'' @ y @ ''.'' @ z"
    by (auto simp: match_here_def split: option.splits if_splits)
  then show ?thesis
    by (intro exI[of _ x] exI[of _ y] exI[of _ z] exI[of _ r6])
       (auto simp: lit_Some dest!: digits1_Some)
qed

lemma match_here_no_minus:
  assumes "match_here s = Some v"
  shows "CHR ''-'' \<notin> set (tl s)"
proof -
  from match_here_elim [OF assms] obtain x y z t where
    s: "s = ''-'' @ x @ ''.'' @ y @ ''.'' @ z @ ''.zip'' @ t" and
    d: "\<forall>c\<in>set x. is_digit c" "\<forall>c\<in>set y. is_digit c" "\<forall>c\<in>set z. is_digit c" and
    t: "at_end t" by blast
  from d not_digit_minus have "CHR ''-'' \<notin> set x" "CHR ''-'' \<notin> set y" "CHR ''-'' \<notin> set z"
    by blast+
  moreover from t have "CHR ''-'' \<notin> set t" by (auto simp: at_end_def)
  ultimately show ?thesis using s by simp
qed

lemma match_here_head:
  "match_here s = Some v \<Longrightarrow> \<exists>t. s = CHR ''-'' # t"
  by (auto dest: match_here_elim)

lemma re_search_append:
  assumes "match_here m = Some v"
  shows "re_search (pre @ m) = Some v"
proof (induction pre)
  case Nil
  from assms show ?case by (cases m) simp_all
next
  case (Cons c pre)
  from match_here_head [OF assms] obtain t where m: "m = CHR ''-'' # t" by blast
  have "match_here (c # pre @ m) = None"
  proof (cases "match_here (c # pre @ m)")
    case (Some w)
    from match_here_no_minus [OF Some] m show ?thesis by simp
  qed simp
  with Cons show ?case by simp
qed

lemma re_search_Some:
  "re_search s = Some v \<Longrightarrow> \<exists>pre m. s = pre @ m \<and> match_here m = Some v"
proof (induction s)
  case Nil
  then show ?case by simp
next
  case (Cons c cs)
  show ?case
  proof (cases "match_here (c # cs)")
    case None
    with Cons obtain pre m where "cs = pre @ m" "match_here m = Some v" by auto
    then have "c # cs = (c # pre) @ m \<and> match_here m = Some v" by simp
    then show ?thesis by blast
  next
    case (Some w)
    with Cons.prems have "c # cs = [] @ (c # cs) \<and> match_here (c # cs) = Some v" by simp
    then show ?thesis by blast
  qed
qed

lemma extract_version_intro:
  assumes "x \<noteq> []" "y \<noteq> []" "z \<noteq> []"
    "\<forall>c\<in>set x. is_digit c" "\<forall>c\<in>set y. is_digit c" "\<forall>c\<in>set z. is_digit c"
  shows "extract_version_from_filename (pre @ ''-'' @ x @ ''.'' @ y @ ''.'' @ z @ ''.zip'')
           = Some (x @ ''.'' @ y @ ''.'' @ z)"
proof -
  have "match_here (''-'' @ x @ ''.'' @ y @ ''.'' @ z @ ''.zip'' @ []) = Some (x @ ''.'' @ y @ ''.'' @ z)"
    using assms by (intro match_here_intro) (simp_all add: at_end_def)
  from re_search_append [OF this, of pre] show ?thesis
    by (simp add: extract_version_from_filename_def)
qed

lemma extract_version_elim:
  assumes "extract_version_from_filename s = Some v"
  shows "\<exists>pre x y z t. s = pre @ ''-'' @ x @ ''.'' @ y @ ''.'' @ z @ ''.zip'' @ t
     \<and> v = x @ ''.'' @ y @ ''.'' @ z
     \<and> x \<noteq> [] \<and> y \<noteq> [] \<and> z \<noteq> [] \<and> (\<forall>c\<in>set x. is_digit c) \<and> (\<forall>c\<in>set y. is_digit c)
     \<and> (\<forall>c\<in>set z. is_digit c) \<and> (t = [] \<or> t = [CHR 0x0A])"
proof -
  from assms have "re_search s = Some v"
    by (simp add: extract_version_from_filename_def split: option.splits)
  from re_search_Some [OF this] obtain pre m where s: "s = pre @ m" and m: "match_here m = Some v"
    by blast
  from match_here_elim [OF m] s show ?thesis unfolding at_end_def by blast
qed

text \<open>
  Claim C2. For every filename that ends with a hyphen, three dot-separated non-empty
  digit sequences and \<open>.zip\<close>, the Version Extractor returns exactly \<open>X.Y.Z\<close>; for every
  other filename it returns \<open>None\<close>. The first half holds (\<open>extract_version_intro\<close>).
  The second half fails: the pattern's \<open>$\<close> also matches before a final line feed, so
  the filename \<open>a-1.2.3.zip\<close> followed by a line feed, which does not end with \<open>.zip\<close>,
  yields the version \<open>1.2.3\<close> instead of \<open>None\<close>.
\<close>

theorem extract_version_trailing_newline:
  "extract_version_from_filename (''a-1.2.3.zip'' @ [CHR 0x0A]) = Some ''1.2.3'' \<and>
   \<not> endswith (''a-1.2.3.zip'' @ [CHR 0x0A]) ''.zip''"
  by (simp add: extract_version_from_filename_def match_here_def lit_def digits1_def
      is_digit_def at_end_def endswith_def suffix_def)

section \<open>The Metadata Reader's match\<close>











section \<open>The loop body\<close>

lemma map_of_insert_version:
  "\<exists>p'. map_of (insert_version k v vi pk) = (map_of pk)(k \<mapsto> p') \<and>
        versions p' = AList.update v vi (case map_of pk k of None \<Rightarrow> [] | Some p \<Rightarrow> versions p)"
proof (cases "k \<in> fst ` set pk")
  case True
  then obtain p where p: "map_of pk k = Some p"
    by (metis map_of_eq_None_iff not_Some_eq)
  with True show ?thesis
    by (intro exI [of _ "p\<lparr>versions := AList.update v vi (versions p)\<rparr>"])
       (simp add: insert_version_def update_conv')
next
  case False
  then have "map_of pk k = None" by (simp add: map_of_eq_None_iff)
  with False show ?thesis
    by (intro exI [of _ "\<lparr>versions = AList.update v vi []\<rparr>"])
       (simp add: insert_version_def update_conv')
qed

lemma index_at_insert_version:
  "index_at (insert_version k v vi pk) = (index_at pk)((k, v) \<mapsto> vi)"
proof -
  from map_of_insert_version [of k v vi pk] obtain p' where
    m: "map_of (insert_version k v vi pk) = (map_of pk)(k \<mapsto> p')" and
    p': "versions p' = AList.update v vi (case map_of pk k of None \<Rightarrow> [] | Some p \<Rightarrow> versions p)"
    by blast
  show ?thesis
  proof
    fix kv :: "pykey \<times> string"
    show "index_at (insert_version k v vi pk) kv = ((index_at pk)((k, v) \<mapsto> vi)) kv"
      by (cases kv) (auto simp: index_at_def m p' update_conv' split: option.splits)
  qed
qed

lemma keys_insert_version:
  "fst ` set (insert_version k v vi pk) = insert k (fst ` set pk)"
proof -
  from map_of_insert_version [of k v vi pk] obtain p' where
    m: "map_of (insert_version k v vi pk) = (map_of pk)(k \<mapsto> p')" by blast
  have "dom (map_of (insert_version k v vi pk)) = insert k (dom (map_of pk))"
    unfolding m by simp
  then show ?thesis by (simp add: dom_map_of_conv_image_fst)
qed

lemma distinct_insert_version_keys:
  "distinct (map fst pk) \<Longrightarrow> distinct (map fst (insert_version k v vi pk))"
  by (simp add: insert_version_def distinct_update Let_def split: option.splits)

lemma distinct_keys_insert_version:
  assumes "distinct_keys pk"
  shows "distinct_keys (insert_version k v vi pk)"
proof -
  from assms have d: "distinct (map fst pk)"
    and dv: "\<And>kp. kp \<in> set pk \<Longrightarrow> distinct (map fst (versions (snd kp)))"
    by (auto simp: distinct_keys_def)
  from map_of_insert_version [of k v vi pk] obtain p' where
    m: "map_of (insert_version k v vi pk) = (map_of pk)(k \<mapsto> p')" and
    p': "versions p' = AList.update v vi (case map_of pk k of None \<Rightarrow> [] | Some p \<Rightarrow> versions p)"
    by blast
  have d': "distinct (map fst (insert_version k v vi pk))"
    using d by (rule distinct_insert_version_keys)
  have "distinct (map fst (versions (snd kp)))" if "kp \<in> set (insert_version k v vi pk)" for kp
  proof -
    obtain k' q where kp: "kp = (k', q)" by (cases kp)
    with that d' have q: "map_of (insert_version k v vi pk) k' = Some q" by simp
    show ?thesis
    proof (cases "k' = k")
      case True
      with q m have "q = p'" by simp
      moreover have "distinct (map fst (case map_of pk k of None \<Rightarrow> [] | Some p \<Rightarrow> versions p))"
        using dv by (auto split: option.splits dest!: map_of_SomeD)
      ultimately show ?thesis using kp p' by (simp add: distinct_update)
    next
      case False
      with q m have "map_of pk k' = Some q" by simp
      then have "(k', q) \<in> set pk" by (rule map_of_SomeD)
      from dv [OF this] kp show ?thesis by simp
    qed
  qed
  with d' show ?thesis by (simp add: distinct_keys_def)
qed

lemma nonempty_insert_version:
  assumes "distinct (map fst pk)" "\<forall>kp\<in>set pk. versions (snd kp) \<noteq> []"
  shows "\<forall>kp\<in>set (insert_version k v vi pk). versions (snd kp) \<noteq> []"
proof
  fix kp assume in': "kp \<in> set (insert_version k v vi pk)"
  from map_of_insert_version [of k v vi pk] obtain p' where
    m: "map_of (insert_version k v vi pk) = (map_of pk)(k \<mapsto> p')" and
    p': "versions p' = AList.update v vi (case map_of pk k of None \<Rightarrow> [] | Some p \<Rightarrow> versions p)"
    by blast
  obtain k' q where kp: "kp = (k', q)" by (cases kp)
  from assms(1) have "distinct (map fst (insert_version k v vi pk))"
    by (rule distinct_insert_version_keys)
  with in' kp have q: "map_of (insert_version k v vi pk) k' = Some q" by simp
  show "versions (snd kp) \<noteq> []"
  proof (cases "k' = k")
    case True
    with q m have "q = p'" by simp
    with kp p' show ?thesis by simp
  next
    case False
    with q m have "map_of pk k' = Some q" by simp
    then have "(k', q) \<in> set pk" by (rule map_of_SomeD)
    with assms(2) kp show ?thesis by auto
  qed
qed

lemma add_version_Inr:
  assumes "truthy (dict_get info ''name'')" "hash_key (dict_get info ''name'') = Inr key"
  shows "add_version r zp fn v info st =
     Inr (print (''Added: '' @ py_str r (dict_get info ''name'') @ '' version '' @ v)
           (st\<lparr>packages := insert_version key v
               (build_version_info info v
                  (''https://raw.githubusercontent.com/cielo-h/vpmRepo/master/'' @
                   py_str r (dict_get info ''displayName'') @ ''/'' @ fn))
               (packages st)\<rparr>))"
proof (cases "key \<in> fst ` set (packages st)")
  case True
  then obtain p where p: "map_of (packages st) key = Some p"
    by (metis map_of_eq_None_iff not_Some_eq)
  with True assms show ?thesis
    by (simp add: add_version_def insert_version_def url_expand)
next
  case False
  with assms show ?thesis
    by (simp add: add_version_def insert_version_def url_expand update_conv')
qed

lemma process_file_packages:
  assumes "process_file r d e st = Inr st'"
  shows "packages st' =
     (case contribution r d e of
        None \<Rightarrow> packages st
      | Some kvv \<Rightarrow> insert_version (fst (fst kvv)) (snd (fst kvv)) (snd kvv) (packages st))"
proof (cases "qualifies (fst e)")
  case False
  with assms show ?thesis
    by (auto simp: process_file_def contribution_def qualifies_def Let_def split: if_splits)
next
  case q: True
  show ?thesis
  proof (cases "extract_version_from_filename (fst e)")
    case None
    with q assms show ?thesis
      by (auto simp: process_file_def contribution_def qualifies_def Let_def print_def)
  next
    case (Some v)
    obtain info out where x: "extract_package_info (path_join d (fst e)) (snd e) = (info, out)"
      by (cases "extract_package_info (path_join d (fst e)) (snd e)")
    then have m: "metadata_of d e = info" by (simp add: metadata_of_def)
    show ?thesis
    proof (cases info)
      case (PDict kvs)
      show ?thesis
      proof (cases "truthy (dict_get kvs ''name'')")
        case False
        with q Some x m PDict assms show ?thesis
          by (auto simp: process_file_def contribution_def qualifies_def Let_def add_version_def print_def)
      next
        case True
        show ?thesis
        proof (cases "hash_key (dict_get kvs ''name'')")
          case (Inl err)
          with True q Some x m PDict assms show ?thesis
            by (auto simp: process_file_def contribution_def qualifies_def Let_def add_version_def)
        next
          case (Inr key)
          from add_version_Inr [OF True Inr] True q Some x m PDict assms Inr show ?thesis
            by (auto simp: process_file_def contribution_def qualifies_def Let_def print_def url_expand)
        qed
      qed
    qed (use q Some x m assms in \<open>auto simp: process_file_def contribution_def qualifies_def Let_def\<close>)
  qed
qed

section \<open>Errors that leave the Package Scanner\<close>

text \<open>
  The loop body raises exactly for a file that passes the filename tests, has a version
  in its name, and whose metadata is parsed to a value that is neither \<open>None\<close> nor a
  dictionary, or to a dictionary whose name is a non-empty list or dictionary.
\<close>

lemma add_version_Inl:
  "add_version r zp fn v info st = Inl err \<longleftrightarrow>
     truthy (dict_get info ''name'') \<and> hash_key (dict_get info ''name'') = Inl err"
proof (cases "truthy (dict_get info ''name'')")
  case False
  then show ?thesis by (simp add: add_version_def)
next
  case True
  show ?thesis
  proof (cases "hash_key (dict_get info ''name'')")
    case (Inl e)
    with True show ?thesis by (auto simp: add_version_def)
  next
    case (Inr key)
    from add_version_Inr [OF True Inr] True Inr show ?thesis by simp
  qed
qed

lemma process_file_Inl:
  "process_file r d e st = Inl err \<longleftrightarrow>
     qualifies (fst e) \<and> extract_version_from_filename (fst e) \<noteq> None \<and>
     (case metadata_of d e of
        PNone \<Rightarrow> False
      | PDict info \<Rightarrow> truthy (dict_get info ''name'') \<and> hash_key (dict_get info ''name'') = Inl err
      | _ \<Rightarrow> err = AttributeError)"
proof (cases "qualifies (fst e) \<and> extract_version_from_filename (fst e) \<noteq> None")
  case False
  then show ?thesis
    by (auto simp: process_file_def qualifies_def Let_def split: option.splits)
next
  case True
  then obtain v where v: "extract_version_from_filename (fst e) = Some v" by auto
  obtain pi out where x: "extract_package_info (path_join d (fst e)) (snd e) = (pi, out)"
    by (cases "extract_package_info (path_join d (fst e)) (snd e)")
  then have m: "metadata_of d e = pi" by (simp add: metadata_of_def)
  from True v x show ?thesis unfolding m
    by (cases pi) (auto simp: process_file_def qualifies_def Let_def add_version_Inl)
qed

text \<open>
  Claim C1. Every per-file failure is contained in the Package Scanner; for every content
  of the metadata file, processing the file raises nothing past the scanner. This fails:
  a \<open>package.json\<close> whose content is the JSON list \<open>[]\<close> is parsed without error, is not
  \<open>None\<close>, and \<open>package_info.get('name')\<close> raises \<open>AttributeError\<close> outside every
  \<open>try\<close> block, so the whole scan ends with that exception.
\<close>

theorem scan_packages_raises_on_list_metadata:
  "scan_packages r
     [(''plugin'', Dir [(''vpm.cielo.tool-1.0.0.zip'', Zip [(''package.json'', Inr (PList []))])])]
   = Inl AttributeError"
  by (simp add: scan_packages_def scan_item_def startswith_def process_file_def endswith_def
      suffix_def extract_version_from_filename_def match_here_def lit_def digits1_def
      is_digit_def at_end_def extract_package_info_def is_package_json_def replace.simps
      zip_read_def print_def path_join_def)

section \<open>The two loops\<close>

lemma process_file_index:
  assumes "process_file r d e st = Inr st'"
  shows "index_at (packages st') =
     index_at (packages st) ++ map_of (case contribution r d e of None \<Rightarrow> [] | Some c \<Rightarrow> [c])"
proof (cases "contribution r d e")
  case None
  with process_file_packages [OF assms] show ?thesis by simp
next
  case (Some c)
  obtain k v vi where c: "c = ((k, v), vi)" by (cases c) auto
  with Some process_file_packages [OF assms] show ?thesis
    by (simp add: index_at_insert_version)
qed

lemma process_file_distinct_keys:
  assumes "process_file r d e st = Inr st'" "distinct_keys (packages st)"
  shows "distinct_keys (packages st')"
  using process_file_packages [OF assms(1)] assms(2)
  by (auto split: option.splits intro: distinct_keys_insert_version)

lemma process_file_nonempty:
  assumes "process_file r d e st = Inr st'" "distinct_keys (packages st)"
    "\<forall>kp\<in>set (packages st). versions (snd kp) \<noteq> []"
  shows "\<forall>kp\<in>set (packages st'). versions (snd kp) \<noteq> []"
proof (cases "contribution r d e")
  case None
  with process_file_packages [OF assms(1)] assms(3) show ?thesis by simp
next
  case (Some c)
  from assms(2) have "distinct (map fst (packages st))" by (simp add: distinct_keys_def)
  from nonempty_insert_version [OF this assms(3)] Some process_file_packages [OF assms(1)]
  show ?thesis by simp
qed

lemma map_filter_append:
  "List.map_filter f (xs @ ys) = List.map_filter f xs @ List.map_filter f ys"
  by (simp add: List.map_filter_def)

lemma scan_files_index:
  "scan_files r d es st = Inr st' \<Longrightarrow>
     index_at (packages st') =
       index_at (packages st) ++ map_of (rev (List.map_filter (contribution r d) es))"
proof (induction es arbitrary: st)
  case Nil
  then show ?case by (simp add: List.map_filter_simps)
next
  case (Cons e es)
  from Cons.prems obtain st1 where
    e: "process_file r d e st = Inr st1" and es: "scan_files r d es st1 = Inr st'"
    by (auto split: sum.splits)
  let ?c = "case contribution r d e of None \<Rightarrow> [] | Some c \<Rightarrow> [c]"
  have "map_of (rev (List.map_filter (contribution r d) (e # es))) =
      map_of ?c ++ map_of (rev (List.map_filter (contribution r d) es))"
    by (cases "contribution r d e") (simp_all add: List.map_filter_simps)
  with Cons.IH [OF es] process_file_index [OF e] show ?case
    by (simp only: map_add_assoc)
qed

lemma scan_files_invariants:
  "scan_files r d es st = Inr st' \<Longrightarrow> distinct_keys (packages st) \<Longrightarrow>
     \<forall>kp\<in>set (packages st). versions (snd kp) \<noteq> [] \<Longrightarrow>
     distinct_keys (packages st') \<and> (\<forall>kp\<in>set (packages st'). versions (snd kp) \<noteq> [])"
proof (induction es arbitrary: st)
  case Nil
  then show ?case by simp
next
  case (Cons e es)
  from Cons.prems(1) obtain st1 where
    e: "process_file r d e st = Inr st1" and es: "scan_files r d es st1 = Inr st'"
    by (auto split: sum.splits)
  from Cons.IH [OF es process_file_distinct_keys [OF e Cons.prems(2)]
      process_file_nonempty [OF e Cons.prems(2,3)]]
  show ?case .
qed

lemma scanned_Cons:
  "scanned (item # t) =
     (case snd item of File \<Rightarrow> [] | Dir entries \<Rightarrow>
        if startswith (fst item) ''.'' then [] else map (Pair (fst item)) entries) @ scanned t"
  by (simp add: scanned_def)

lemma map_filter_Pair:
  "List.map_filter (\<lambda>de. contribution r (fst de) (snd de)) (map (Pair d) es) =
     List.map_filter (contribution r d) es"
  by (induction es) (simp_all add: List.map_filter_simps split: option.splits)

lemma scan_item_index:
  assumes "scan_item r item st = Inr st'"
  shows "index_at (packages st') =
     index_at (packages st) ++ map_of (rev (contributions r [item]))"
proof (cases "snd item")
  case File
  with assms show ?thesis
    by (simp add: scan_item_def contributions_def scanned_def List.map_filter_simps)
next
  case (Dir es)
  show ?thesis
  proof (cases "startswith (fst item) ''.''")
    case True
    with Dir assms show ?thesis
      by (simp add: scan_item_def contributions_def scanned_def List.map_filter_simps)
  next
    case False
    with Dir assms have
      "scan_files r (fst item) es (print (''Scanning directory: '' @ fst item) st) = Inr st'"
      by (simp add: scan_item_def)
    from scan_files_index [OF this] Dir False show ?thesis
      by (simp add: contributions_def scanned_def map_filter_Pair print_def)
  qed
qed

lemma scan_item_invariants:
  assumes "scan_item r item st = Inr st'" "distinct_keys (packages st)"
     "\<forall>kp\<in>set (packages st). versions (snd kp) \<noteq> []"
  shows "distinct_keys (packages st') \<and> (\<forall>kp\<in>set (packages st'). versions (snd kp) \<noteq> [])"
proof (cases "snd item")
  case File
  with assms show ?thesis by (simp add: scan_item_def)
next
  case (Dir es)
  show ?thesis
  proof (cases "startswith (fst item) ''.''")
    case True
    with Dir assms show ?thesis by (simp add: scan_item_def)
  next
    case False
    with Dir assms have
      "scan_files r (fst item) es (print (''Scanning directory: '' @ fst item) st) = Inr st'"
      by (simp add: scan_item_def)
    from scan_files_invariants [OF this] assms(2,3) show ?thesis
      by (simp add: print_def)
  qed
qed

lemma contributions_Cons:
  "contributions r (item # t) = contributions r [item] @ contributions r t"
  by (simp add: contributions_def scanned_def map_filter_append)

lemma scan_items_index:
  "scan_items r t st = Inr st' \<Longrightarrow>
     index_at (packages st') = index_at (packages st) ++ map_of (rev (contributions r t))"
proof (induction t arbitrary: st)
  case Nil
  then show ?case by (simp add: contributions_def scanned_def List.map_filter_simps)
next
  case (Cons item t)
  from Cons.prems obtain st1 where
    i: "scan_item r item st = Inr st1" and t: "scan_items r t st1 = Inr st'"
    by (auto split: sum.splits)
  from Cons.IH [OF t] scan_item_index [OF i] show ?case
    by (subst contributions_Cons) simp
qed

lemma scan_items_invariants:
  "scan_items r t st = Inr st' \<Longrightarrow> distinct_keys (packages st) \<Longrightarrow>
     \<forall>kp\<in>set (packages st). versions (snd kp) \<noteq> [] \<Longrightarrow>
     distinct_keys (packages st') \<and> (\<forall>kp\<in>set (packages st'). versions (snd kp) \<noteq> [])"
proof (induction t arbitrary: st)
  case Nil
  then show ?case by simp
next
  case (Cons item t)
  from Cons.prems(1) obtain st1 where
    i: "scan_item r item st = Inr st1" and t: "scan_items r t st1 = Inr st'"
    by (auto split: sum.splits)
  from scan_item_invariants [OF i Cons.prems(2,3)] Cons.IH [OF t] show ?case by blast
qed

lemma scan_packages_index:
  "scan_packages r t = Inr st \<Longrightarrow> index_at (packages st) = map_of (rev (contributions r t))"
proof -
  assume "scan_packages r t = Inr st"
  then have "scan_items r t \<lparr>packages = [], stdout = []\<rparr> = Inr st" by (simp add: scan_packages_def)
  moreover have "index_at [] = Map.empty"
    by (simp add: index_at_def fun_eq_iff)
  ultimately show ?thesis
    using scan_items_index [of r t "\<lparr>packages = [], stdout = []\<rparr>" st] by simp
qed

lemma scan_packages_invariants:
  assumes "scan_packages r t = Inr st"
  shows "distinct_keys (packages st)" "\<forall>kp\<in>set (packages st). versions (snd kp) \<noteq> []"
proof -
  from assms have "scan_items r t \<lparr>packages = [], stdout = []\<rparr> = Inr st"
    by (simp add: scan_packages_def)
  from scan_items_invariants [OF this]
  show "distinct_keys (packages st)" "\<forall>kp\<in>set (packages st). versions (snd kp) \<noteq> []"
    by (simp_all add: distinct_keys_def)
qed

text \<open>Every record present in the result is the contribution of a scanned entry.\<close>

lemma scan_packages_provenance:
  assumes "scan_packages r t = Inr st" "(k, p) \<in> set (packages st)" "(v, vi) \<in> set (versions p)"
  shows "\<exists>de\<in>set (scanned t). contribution r (fst de) (snd de) = Some ((k, v), vi)"
proof -
  from scan_packages_invariants(1) [OF assms(1)] have
    d: "distinct (map fst (packages st))" and
    dv: "\<And>kp. kp \<in> set (packages st) \<Longrightarrow> distinct (map fst (versions (snd kp)))"
    by (auto simp: distinct_keys_def)
  from d assms(2) have "map_of (packages st) k = Some p" by simp
  moreover from dv [OF assms(2)] assms(3) have "map_of (versions p) v = Some vi" by simp
  ultimately have "index_at (packages st) (k, v) = Some vi" by (simp add: index_at_def)
  with scan_packages_index [OF assms(1)] have "map_of (rev (contributions r t)) (k, v) = Some vi"
    by simp
  then have "((k, v), vi) \<in> set (contributions r t)" by (auto dest: map_of_SomeD)
  then obtain de where "de \<in> set (scanned t)"
    "contribution r (fst de) (snd de) = Some ((k, v), vi)"
    by (auto simp: contributions_def List.map_filter_def)
  then show ?thesis by blast
qed

section \<open>Version Records\<close>

lemma build_version_info_fixed:
  "map_of (build_version_info info v url) ''name'' = Some (dict_get info ''name'')"
  "map_of (build_version_info info v url) ''displayName'' = Some (dict_get info ''displayName'')"
  "map_of (build_version_info info v url) ''version'' = Some (PStr v)"
  "map_of (build_version_info info v url) ''unity'' = Some (dict_get info ''unity'')"
  "map_of (build_version_info info v url) ''description'' = Some (dict_get info ''description'')"
  "map_of (build_version_info info v url) ''url'' = Some (PStr url)"
  by (simp_all add: build_version_info_def Let_def update_conv' split: option.splits)

lemma build_version_info_optional:
  "map_of (build_version_info info v url) ''vpmDependencies'' = map_of info ''vpmDependencies''"
  "map_of (build_version_info info v url) ''author'' = map_of info ''author''"
  by (simp_all add: build_version_info_def Let_def update_conv' split: option.splits)

lemma key_present_iff: "k \<in> fst ` set al \<longleftrightarrow> map_of al k \<noteq> None"
  by (simp add: map_of_eq_None_iff)

lemma contribution_SomeD:
  assumes "contribution r d e = Some ((k, v), vi)"
  shows "qualifies (fst e) \<and> extract_version_from_filename (fst e) = Some v \<and>
     (\<exists>info. metadata_of d e = PDict info \<and> truthy (dict_get info ''name'') \<and>
        hash_key (dict_get info ''name'') = Inr k \<and>
        vi = build_version_info info v
               (''https://raw.githubusercontent.com/cielo-h/vpmRepo/master/'' @
                py_str r (dict_get info ''displayName'') @ ''/'' @ fst e))"
  using assms
  by (auto simp: contribution_def url_expand split: if_splits option.splits pyval.splits sum.splits)

lemma scanned_iff:
  "(d, e) \<in> set (scanned t) \<longleftrightarrow>
     (\<exists>entries. (d, Dir entries) \<in> set t \<and> \<not> startswith d ''.'' \<and> e \<in> set entries)"
  by (induction t) (auto simp: scanned_def split: node.splits if_splits)

lemma generate_index_Inr:
  "generate_index r t = Inr ix \<Longrightarrow> \<exists>st. scan_packages r t = Inr st \<and> ix_packages ix = packages st"
  by (auto simp: generate_index_def split: sum.splits)

text \<open>Every record of the emitted index, traced back to the entry it was built from.\<close>

lemma emitted_record_source:
  assumes "generate_index r t = Inr ix" "(k, p) \<in> set (ix_packages ix)" "(v, vi) \<in> set (versions p)"
  shows "\<exists>d entries filename ar info.
     (d, Dir entries) \<in> set t \<and> \<not> startswith d ''.'' \<and> (filename, ar) \<in> set entries \<and>
     qualifies filename \<and> extract_version_from_filename filename = Some v \<and>
     metadata_of d (filename, ar) = PDict info \<and> truthy (dict_get info ''name'') \<and>
     hash_key (dict_get info ''name'') = Inr k \<and>
     vi = build_version_info info v
            (''https://raw.githubusercontent.com/cielo-h/vpmRepo/master/'' @
             py_str r (dict_get info ''displayName'') @ ''/'' @ filename)"
proof -
  from generate_index_Inr [OF assms(1)] obtain st where
    st: "scan_packages r t = Inr st" "ix_packages ix = packages st" by blast
  with assms(2) have "(k, p) \<in> set (packages st)" by simp
  from scan_packages_provenance [OF st(1) this assms(3)] obtain d e where
    de: "(d, e) \<in> set (scanned t)" and c: "contribution r d e = Some ((k, v), vi)"
    by auto
  from de obtain entries where
    t: "(d, Dir entries) \<in> set t" "\<not> startswith d ''.''" "e \<in> set entries"
    unfolding scanned_iff by blast
  obtain filename ar where e: "e = (filename, ar)" by (cases e)
  from contribution_SomeD [OF c] obtain info where
    "qualifies filename" "extract_version_from_filename filename = Some v"
    "metadata_of d (filename, ar) = PDict info" "truthy (dict_get info ''name'')"
    "hash_key (dict_get info ''name'') = Inr k"
    "vi = build_version_info info v
            (''https://raw.githubusercontent.com/cielo-h/vpmRepo/master/'' @
             py_str r (dict_get info ''displayName'') @ ''/'' @ filename)"
    unfolding e by auto
  with t e show ?thesis by blast
qed

section \<open>The emitted index\<close>

text \<open>
  Claim C3. Every Version Record of the emitted index has as its \<open>version\<close> field the
  version extracted from the filename of the archive it was built from, whatever the
  metadata declares, and is stored in its package's version mapping under that same
  string.
\<close>

theorem version_is_filename_version:
  assumes "generate_index r t = Inr ix" "(k, p) \<in> set (ix_packages ix)"
    "(v, vi) \<in> set (versions p)"
  shows "map_of vi ''version'' = Some (PStr v) \<and>
     (\<exists>d entries filename ar info url.
        (d, Dir entries) \<in> set t \<and> (filename, ar) \<in> set entries \<and>
        extract_version_from_filename filename = Some v \<and>
        metadata_of d (filename, ar) = PDict info \<and>
        vi = build_version_info info v url)"
proof -
  from emitted_record_source [OF assms] obtain d entries filename ar info where
    src: "(d, Dir entries) \<in> set t" "(filename, ar) \<in> set entries"
      "extract_version_from_filename filename = Some v"
      "metadata_of d (filename, ar) = PDict info" and
    vi: "vi = build_version_info info v
            (''https://raw.githubusercontent.com/cielo-h/vpmRepo/master/'' @
             py_str r (dict_get info ''displayName'') @ ''/'' @ filename)"
    by blast
  from vi have "map_of vi ''version'' = Some (PStr v)"
    by (simp add: build_version_info_fixed)
  with src vi show ?thesis by blast
qed

theorem version_is_filename_version_witness:
  "(\<exists>ix. generate_index (\<lambda>_. [])
       [(''Tool'', Dir [(''vpm.cielo.tool-1.0.0.zip'',
           Zip [(''package.json'',
                 Inr (PDict [(''name'', PStr ''com.cielo.tool''), (''version'', PStr ''9.9.9'')]))])])]
       = Inr ix \<and>
     ix_packages ix =
       [(KStr ''com.cielo.tool'', \<lparr>versions = [(''1.0.0'',
          [(''name'', PStr ''com.cielo.tool''), (''displayName'', PNone),
           (''version'', PStr ''1.0.0''), (''unity'', PNone), (''description'', PNone),
           (''url'', PStr ''https://raw.githubusercontent.com/cielo-h/vpmRepo/master/None/vpm.cielo.tool-1.0.0.zip'')])]\<rparr>)]) \<and>
   map_of [(''name'', PStr ''com.cielo.tool''), (''displayName'', PNone),
           (''version'', PStr ''1.0.0''), (''unity'', PNone), (''description'', PNone),
           (''url'', PStr ''https://raw.githubusercontent.com/cielo-h/vpmRepo/master/None/vpm.cielo.tool-1.0.0.zip'')]
     ''version'' = Some (PStr ''1.0.0'')"
proof -
  let ?t = "[(''Tool'', Dir [(''vpm.cielo.tool-1.0.0.zip'',
           Zip [(''package.json'',
                 Inr (PDict [(''name'', PStr ''com.cielo.tool''), (''version'', PStr ''9.9.9'')]))])])]"
  let ?vi = "[(''name'', PStr ''com.cielo.tool''), (''displayName'', PNone),
           (''version'', PStr ''1.0.0''), (''unity'', PNone), (''description'', PNone),
           (''url'', PStr ''https://raw.githubusercontent.com/cielo-h/vpmRepo/master/None/vpm.cielo.tool-1.0.0.zip'')]"
  let ?p = "\<lparr>versions = [(''1.0.0'', ?vi)]\<rparr>"
  let ?ix = "\<lparr>ix_name = ''Cielo Repo'', ix_id = ''vpm.cielo-h'',
      ix_url = ''https://cielo-h.github.io/vpmRepo/index.json'', ix_author = ''cielo-h'',
      ix_packages = [(KStr ''com.cielo.tool'', ?p)]\<rparr>"
  have g: "generate_index (\<lambda>_. []) ?t = Inr ?ix"
    by code_simp
  have "map_of ?vi ''version'' = Some (PStr ''1.0.0'')"
    using version_is_filename_version [OF g, of "KStr ''com.cielo.tool''" ?p "''1.0.0''" ?vi]
    by simp
  with g show ?thesis by simp
qed

text \<open>
  Claim C5. The download URL of every emitted Version Record is the URL template with the
  display name of the record's own metadata and the filename of the record's own archive
  put in as they are: the text before \<open>{plugin_name}\<close>, the display name, a slash and
  the filename, with no character encoded or changed. The archive is a file of the tree
  that passes the filename tests, whose name gives the record's version, whose metadata
  names the record's package and from which the whole record is built.
\<close>

theorem url_is_textual_substitution:
  assumes "generate_index r t = Inr ix" "(k, p) \<in> set (ix_packages ix)"
    "(v, vi) \<in> set (versions p)"
  shows "\<exists>d entries filename ar info.
     (d, Dir entries) \<in> set t \<and> \<not> startswith d ''.'' \<and> (filename, ar) \<in> set entries \<and>
     qualifies filename \<and> extract_version_from_filename filename = Some v \<and>
     metadata_of d (filename, ar) = PDict info \<and>
     hash_key (dict_get info ''name'') = Inr k \<and>
     vi = build_version_info info v
            (''https://raw.githubusercontent.com/cielo-h/vpmRepo/master/'' @
             py_str r (dict_get info ''displayName'') @ ''/'' @ filename) \<and>
     str_format DOWNLOAD_URL_BASE
        [(''plugin_name'', py_str r (dict_get info ''displayName'')), (''filename'', filename)] =
       Inr (''https://raw.githubusercontent.com/cielo-h/vpmRepo/master/'' @
            py_str r (dict_get info ''displayName'') @ ''/'' @ filename) \<and>
     map_of vi ''url'' =
       Some (PStr (''https://raw.githubusercontent.com/cielo-h/vpmRepo/master/'' @
                   py_str r (dict_get info ''displayName'') @ ''/'' @ filename)) \<and>
     (\<forall>s. dict_get info ''displayName'' = PStr s \<longrightarrow>
        map_of vi ''url'' =
          Some (PStr (''https://raw.githubusercontent.com/cielo-h/vpmRepo/master/'' @
                      s @ ''/'' @ filename)))"
proof -
  from emitted_record_source [OF assms] obtain d entries filename ar info where
    src: "(d, Dir entries) \<in> set t" "\<not> startswith d ''.''" "(filename, ar) \<in> set entries"
      "qualifies filename" "extract_version_from_filename filename = Some v"
      "metadata_of d (filename, ar) = PDict info"
      "hash_key (dict_get info ''name'') = Inr k" and
    vi: "vi = build_version_info info v
            (''https://raw.githubusercontent.com/cielo-h/vpmRepo/master/'' @
             py_str r (dict_get info ''displayName'') @ ''/'' @ filename)"
    by blast
  from vi have u: "map_of vi ''url'' =
       Some (PStr (''https://raw.githubusercontent.com/cielo-h/vpmRepo/master/'' @
                   py_str r (dict_get info ''displayName'') @ ''/'' @ filename))"
    by (simp add: build_version_info_fixed)
  then have s: "\<forall>s. dict_get info ''displayName'' = PStr s \<longrightarrow>
        map_of vi ''url'' =
          Some (PStr (''https://raw.githubusercontent.com/cielo-h/vpmRepo/master/'' @
                      s @ ''/'' @ filename))"
    by simp
  note e = url_expand [of "py_str r (dict_get info ''displayName'')" filename]
  from src vi e u s show ?thesis
    by (intro exI [of _ d] exI [of _ entries] exI [of _ filename] exI [of _ ar] exI [of _ info])
       (intro conjI; assumption)
qed

theorem url_is_textual_substitution_witness:
  "(\<exists>ix. generate_index (\<lambda>_. [])
       [(''Tool'', Dir [(''vpm.cielo.my tool-1.0.0.zip'',
           Zip [(''package.json'',
                 Inr (PDict [(''name'', PStr ''com.cielo.tool''),
                             (''displayName'', PStr ''My Tool #1 {filename}'')]))]),
                       (''vpm.cielo.my tool-1.1.0.zip'',
           Zip [(''package.json'',
                 Inr (PDict [(''name'', PStr ''com.cielo.tool''),
                             (''displayName'', PStr ''My Tool/2'')]))])])]
       = Inr ix \<and>
     ix_packages ix =
       [(KStr ''com.cielo.tool'', \<lparr>versions =
          [(''1.0.0'',
            [(''name'', PStr ''com.cielo.tool''), (''displayName'', PStr ''My Tool #1 {filename}''),
             (''version'', PStr ''1.0.0''), (''unity'', PNone), (''description'', PNone),
             (''url'', PStr ''https://raw.githubusercontent.com/cielo-h/vpmRepo/master/My Tool #1 {filename}/vpm.cielo.my tool-1.0.0.zip'')]),
           (''1.1.0'',
            [(''name'', PStr ''com.cielo.tool''), (''displayName'', PStr ''My Tool/2''),
             (''version'', PStr ''1.1.0''), (''unity'', PNone), (''description'', PNone),
             (''url'', PStr ''https://raw.githubusercontent.com/cielo-h/vpmRepo/master/My Tool/2/vpm.cielo.my tool-1.1.0.zip'')])]\<rparr>)])"
proof -
  let ?t = "[(''Tool'', Dir [(''vpm.cielo.my tool-1.0.0.zip'',
           Zip [(''package.json'',
                 Inr (PDict [(''name'', PStr ''com.cielo.tool''),
                             (''displayName'', PStr ''My Tool #1 {filename}'')]))]),
                       (''vpm.cielo.my tool-1.1.0.zip'',
           Zip [(''package.json'',
                 Inr (PDict [(''name'', PStr ''com.cielo.tool''),
                             (''displayName'', PStr ''My Tool/2'')]))])])]"
  let ?v0 = "[(''name'', PStr ''com.cielo.tool''), (''displayName'', PStr ''My Tool #1 {filename}''),
             (''version'', PStr ''1.0.0''), (''unity'', PNone), (''description'', PNone),
             (''url'', PStr ''https://raw.githubusercontent.com/cielo-h/vpmRepo/master/My Tool #1 {filename}/vpm.cielo.my tool-1.0.0.zip'')]"
  let ?v1 = "[(''name'', PStr ''com.cielo.tool''), (''displayName'', PStr ''My Tool/2''),
             (''version'', PStr ''1.1.0''), (''unity'', PNone), (''description'', PNone),
             (''url'', PStr ''https://raw.githubusercontent.com/cielo-h/vpmRepo/master/My Tool/2/vpm.cielo.my tool-1.1.0.zip'')]"
  let ?p = "\<lparr>versions = [(''1.0.0'', ?v0), (''1.1.0'', ?v1)]\<rparr>"
  let ?ix = "\<lparr>ix_name = ''Cielo Repo'', ix_id = ''vpm.cielo-h'',
      ix_url = ''https://cielo-h.github.io/vpmRepo/index.json'', ix_author = ''cielo-h'',
      ix_packages = [(KStr ''com.cielo.tool'', ?p)]\<rparr>"
  have g: "generate_index (\<lambda>_. []) ?t = Inr ?ix"
    by code_simp
  from url_is_textual_substitution [OF g, of "KStr ''com.cielo.tool''" ?p "''1.1.0''" ?v1]
  have "\<exists>d entries filename ar. (d, Dir entries) \<in> set ?t \<and> (filename, ar) \<in> set entries \<and>
     extract_version_from_filename filename = Some ''1.1.0''"
    by simp blast
  with g show ?thesis by simp
qed

text \<open>
  Claim C8. A Version Record has the key \<open>vpmDependencies\<close> (and likewise \<open>author\<close>)
  exactly when the metadata it was built from has it, and then with the same value; when
  that metadata lacks the key, the record has no such key at all. The metadata is that of
  a file of the tree that passes the filename tests, whose name gives the record's
  version, whose metadata names the record's package and from which the whole record is
  built.
\<close>

theorem optional_keys_copied_or_absent:
  assumes "generate_index r t = Inr ix" "(k, p) \<in> set (ix_packages ix)"
    "(v, vi) \<in> set (versions p)"
  shows "\<exists>d entries filename ar info.
     (d, Dir entries) \<in> set t \<and> \<not> startswith d ''.'' \<and> (filename, ar) \<in> set entries \<and>
     qualifies filename \<and> extract_version_from_filename filename = Some v \<and>
     metadata_of d (filename, ar) = PDict info \<and>
     hash_key (dict_get info ''name'') = Inr k \<and>
     vi = build_version_info info v
            (''https://raw.githubusercontent.com/cielo-h/vpmRepo/master/'' @
             py_str r (dict_get info ''displayName'') @ ''/'' @ filename) \<and>
     map_of vi ''vpmDependencies'' = map_of info ''vpmDependencies'' \<and>
     map_of vi ''author'' = map_of info ''author'' \<and>
     (''vpmDependencies'' \<in> fst ` set vi) = (''vpmDependencies'' \<in> fst ` set info) \<and>
     (''author'' \<in> fst ` set vi) = (''author'' \<in> fst ` set info)"
proof -
  from emitted_record_source [OF assms] obtain d entries filename ar info where
    src: "(d, Dir entries) \<in> set t" "\<not> startswith d ''.''" "(filename, ar) \<in> set entries"
      "qualifies filename" "extract_version_from_filename filename = Some v"
      "metadata_of d (filename, ar) = PDict info"
      "hash_key (dict_get info ''name'') = Inr k" and
    vi: "vi = build_version_info info v
            (''https://raw.githubusercontent.com/cielo-h/vpmRepo/master/'' @
             py_str r (dict_get info ''displayName'') @ ''/'' @ filename)"
    by blast
  from vi have m: "map_of vi ''vpmDependencies'' = map_of info ''vpmDependencies''"
    "map_of vi ''author'' = map_of info ''author''"
    by (simp_all add: build_version_info_optional)
  then have ks: "(''vpmDependencies'' \<in> fst ` set vi) = (''vpmDependencies'' \<in> fst ` set info)"
    "(''author'' \<in> fst ` set vi) = (''author'' \<in> fst ` set info)"
    by (simp_all only: key_present_iff)
  from src vi m ks show ?thesis
    by (intro exI [of _ d] exI [of _ entries] exI [of _ filename] exI [of _ ar] exI [of _ info])
       (intro conjI; assumption)
qed

theorem optional_keys_copied_or_absent_witness:
  "(\<exists>ix. generate_index (\<lambda>_. [])
       [(''Tool'', Dir [(''vpm.cielo.tool-1.0.0.zip'',
           Zip [(''package.json'',
                 Inr (PDict [(''name'', PStr ''com.cielo.tool''),
                             (''vpmDependencies'', PDict [(''com.cielo.base'', PStr ''1.0.0'')]),
                             (''author'', PStr ''alice'')]))]),
                       (''vpm.cielo.tool-1.1.0.zip'',
           Zip [(''package.json'',
                 Inr (PDict [(''name'', PStr ''com.cielo.tool'')]))])])]
       = Inr ix \<and>
     ix_packages ix =
       [(KStr ''com.cielo.tool'', \<lparr>versions =
          [(''1.0.0'',
            [(''name'', PStr ''com.cielo.tool''), (''displayName'', PNone),
             (''version'', PStr ''1.0.0''), (''unity'', PNone), (''description'', PNone),
             (''url'', PStr ''https://raw.githubusercontent.com/cielo-h/vpmRepo/master/None/vpm.cielo.tool-1.0.0.zip''),
             (''vpmDependencies'', PDict [(''com.cielo.base'', PStr ''1.0.0'')]),
             (''author'', PStr ''alice'')]),
           (''1.1.0'',
            [(''name'', PStr ''com.cielo.tool''), (''displayName'', PNone),
             (''version'', PStr ''1.1.0''), (''unity'', PNone), (''description'', PNone),
             (''url'', PStr ''https://raw.githubusercontent.com/cielo-h/vpmRepo/master/None/vpm.cielo.tool-1.1.0.zip'')])]\<rparr>)])"
proof -
  let ?t = "[(''Tool'', Dir [(''vpm.cielo.tool-1.0.0.zip'',
           Zip [(''package.json'',
                 Inr (PDict [(''name'', PStr ''com.cielo.tool''),
                             (''vpmDependencies'', PDict [(''com.cielo.base'', PStr ''1.0.0'')]),
                             (''author'', PStr ''alice'')]))]),
                       (''vpm.cielo.tool-1.1.0.zip'',
           Zip [(''package.json'',
                 Inr (PDict [(''name'', PStr ''com.cielo.tool'')]))])])]"
  let ?v0 = "[(''name'', PStr ''com.cielo.tool''), (''displayName'', PNone),
             (''version'', PStr ''1.0.0''), (''unity'', PNone), (''description'', PNone),
             (''url'', PStr ''https://raw.githubusercontent.com/cielo-h/vpmRepo/master/None/vpm.cielo.tool-1.0.0.zip''),
             (''vpmDependencies'', PDict [(''com.cielo.base'', PStr ''1.0.0'')]),
             (''author'', PStr ''alice'')]"
  let ?v1 = "[(''name'', PStr ''com.cielo.tool''), (''displayName'', PNone),
             (''version'', PStr ''1.1.0''), (''unity'', PNone), (''description'', PNone),
             (''url'', PStr ''https://raw.githubusercontent.com/cielo-h/vpmRepo/master/None/vpm.cielo.tool-1.1.0.zip'')]"
  let ?p = "\<lparr>versions = [(''1.0.0'', ?v0), (''1.1.0'', ?v1)]\<rparr>"
  let ?ix = "\<lparr>ix_name = ''Cielo Repo'', ix_id = ''vpm.cielo-h'',
      ix_url = ''https://cielo-h.github.io/vpmRepo/index.json'', ix_author = ''cielo-h'',
      ix_packages = [(KStr ''com.cielo.tool'', ?p)]\<rparr>"
  have g: "generate_index (\<lambda>_. []) ?t = Inr ?ix"
    by code_simp
  from optional_keys_copied_or_absent [OF g, of "KStr ''com.cielo.tool''" ?p "''1.1.0''" ?v1]
  have "\<exists>d entries filename ar. (d, Dir entries) \<in> set ?t \<and> (filename, ar) \<in> set entries \<and>
     extract_version_from_filename filename = Some ''1.1.0''"
    by simp blast
  with g show ?thesis by simp
qed

text \<open>
  Claim C10. Every package of the emitted index has at least one version: a package entry
  is created only on the way to inserting a Version Record under it.
\<close>

theorem package_has_a_version:
  assumes "generate_index r t = Inr ix" "(k, p) \<in> set (ix_packages ix)"
  shows "versions p \<noteq> []"
proof -
  from generate_index_Inr [OF assms(1)] obtain st where
    st: "scan_packages r t = Inr st" "ix_packages ix = packages st" by blast
  from scan_packages_invariants(2) [OF st(1)] st(2) assms(2) show ?thesis by auto
qed

theorem package_has_a_version_witness:
  "(\<exists>ix. generate_index (\<lambda>_. [])
       [(''Tool'', Dir [(''vpm.cielo.tool-1.0.0.zip'',
                        Zip [(''package.json'', Inr (PDict [(''name'', PStr ''com.cielo.tool'')]))]),
                       (''vpm.cielo.other-2.0.0.zip'',
                        Zip [(''package.json'', Inr (PDict [(''displayName'', PStr ''Other'')]))])])]
       = Inr ix \<and>
     map (\<lambda>kp. (fst kp, map fst (versions (snd kp)))) (ix_packages ix) =
       [(KStr ''com.cielo.tool'', [''1.0.0''])])"
proof -
  let ?t = "[(''Tool'', Dir [(''vpm.cielo.tool-1.0.0.zip'',
                        Zip [(''package.json'', Inr (PDict [(''name'', PStr ''com.cielo.tool'')]))]),
                       (''vpm.cielo.other-2.0.0.zip'',
                        Zip [(''package.json'', Inr (PDict [(''displayName'', PStr ''Other'')]))])])]"
  let ?vi = "[(''name'', PStr ''com.cielo.tool''), (''displayName'', PNone),
           (''version'', PStr ''1.0.0''), (''unity'', PNone), (''description'', PNone),
           (''url'', PStr ''https://raw.githubusercontent.com/cielo-h/vpmRepo/master/None/vpm.cielo.tool-1.0.0.zip'')]"
  let ?p = "\<lparr>versions = [(''1.0.0'', ?vi)]\<rparr>"
  let ?ix = "\<lparr>ix_name = ''Cielo Repo'', ix_id = ''vpm.cielo-h'',
      ix_url = ''https://cielo-h.github.io/vpmRepo/index.json'', ix_author = ''cielo-h'',
      ix_packages = [(KStr ''com.cielo.tool'', ?p)]\<rparr>"
  have g: "generate_index (\<lambda>_. []) ?t = Inr ?ix"
    by code_simp
  from package_has_a_version [OF g, of "KStr ''com.cielo.tool''" ?p]
  have "versions ?p \<noteq> []" by simp
  with g show ?thesis by simp
qed

text \<open>
  Claim C6. Archives of one package with distinct versions all appear under the single
  package key, each at its own version; of two archives with the same package key and
  version the one processed later is the one that stays, and no other entry changes.
  After a scan, the record at a package key and version is the one contributed by the
  last scanned archive that contributes to this key and version; every contributed pair
  of key and version is present; and no package key occurs twice.
\<close>

theorem versions_coexist_last_wins:
  assumes "scan_packages r t = Inr st"
  shows "index_at (packages st) = map_of (rev (contributions r t)) \<and>
     (\<forall>c\<in>set (contributions r t). index_at (packages st) (fst c) \<noteq> None) \<and>
     distinct (map fst (packages st))"
proof -
  have i: "index_at (packages st) = map_of (rev (contributions r t))"
    using assms by (rule scan_packages_index)
  have "index_at (packages st) (fst c) \<noteq> None" if "c \<in> set (contributions r t)" for c
    using that unfolding i by (simp add: map_of_eq_None_iff)
  moreover from scan_packages_invariants(1) [OF assms] have "distinct (map fst (packages st))"
    by (simp add: distinct_keys_def)
  ultimately show ?thesis using i by blast
qed

theorem versions_coexist_last_wins_witness:
  "\<exists>st. scan_packages (\<lambda>_. [])
       [(''Tool'', Dir [(''vpm.cielo.tool-1.0.0.zip'',
                        Zip [(''package.json'',
                              Inr (PDict [(''name'', PStr ''com.cielo.tool''),
                                          (''description'', PStr ''first'')]))]),
                       (''vpm.cielo.tool-1.1.0.zip'',
                        Zip [(''package.json'', Inr (PDict [(''name'', PStr ''com.cielo.tool'')]))])]),
        (''Mirror'', Dir [(''vpm.cielo.tool-1.0.0.zip'',
                          Zip [(''package.json'',
                                Inr (PDict [(''name'', PStr ''com.cielo.tool''),
                                            (''description'', PStr ''second'')]))])])]
      = Inr st \<and>
     map (\<lambda>kp. (fst kp, map fst (versions (snd kp)))) (packages st) =
       [(KStr ''com.cielo.tool'', [''1.0.0'', ''1.1.0''])] \<and>
     index_at (packages st) (KStr ''com.cielo.tool'', ''1.0.0'') =
       Some [(''name'', PStr ''com.cielo.tool''), (''displayName'', PNone),
             (''version'', PStr ''1.0.0''), (''unity'', PNone),
             (''description'', PStr ''second''),
             (''url'', PStr ''https://raw.githubusercontent.com/cielo-h/vpmRepo/master/None/vpm.cielo.tool-1.0.0.zip'')] \<and>
     index_at (packages st) (KStr ''com.cielo.tool'', ''1.1.0'') =
       Some [(''name'', PStr ''com.cielo.tool''), (''displayName'', PNone),
             (''version'', PStr ''1.1.0''), (''unity'', PNone), (''description'', PNone),
             (''url'', PStr ''https://raw.githubusercontent.com/cielo-h/vpmRepo/master/None/vpm.cielo.tool-1.1.0.zip'')]"
proof -
  let ?r = "\<lambda>_::pyval. []::string"
  let ?t = "[(''Tool'', Dir [(''vpm.cielo.tool-1.0.0.zip'',
                        Zip [(''package.json'',
                              Inr (PDict [(''name'', PStr ''com.cielo.tool''),
                                          (''description'', PStr ''first'')]))]),
                       (''vpm.cielo.tool-1.1.0.zip'',
                        Zip [(''package.json'', Inr (PDict [(''name'', PStr ''com.cielo.tool'')]))])]),
        (''Mirror'', Dir [(''vpm.cielo.tool-1.0.0.zip'',
                          Zip [(''package.json'',
                                Inr (PDict [(''name'', PStr ''com.cielo.tool''),
                                            (''description'', PStr ''second'')]))])])]"
  have "\<not> isl (scan_packages ?r ?t)" by code_simp
  then obtain st where s: "scan_packages ?r ?t = Inr st"
    by (cases "scan_packages ?r ?t") auto
  have keys: "map (\<lambda>kp. (fst kp, map fst (versions (snd kp)))) (packages (projr (scan_packages ?r ?t))) =
       [(KStr ''com.cielo.tool'', [''1.0.0'', ''1.1.0''])]"
    by code_simp
  have a: "map_of (rev (contributions ?r ?t)) (KStr ''com.cielo.tool'', ''1.0.0'') =
       Some [(''name'', PStr ''com.cielo.tool''), (''displayName'', PNone),
             (''version'', PStr ''1.0.0''), (''unity'', PNone),
             (''description'', PStr ''second''),
             (''url'', PStr ''https://raw.githubusercontent.com/cielo-h/vpmRepo/master/None/vpm.cielo.tool-1.0.0.zip'')]"
    by code_simp
  have b: "map_of (rev (contributions ?r ?t)) (KStr ''com.cielo.tool'', ''1.1.0'') =
       Some [(''name'', PStr ''com.cielo.tool''), (''displayName'', PNone),
             (''version'', PStr ''1.1.0''), (''unity'', PNone), (''description'', PNone),
             (''url'', PStr ''https://raw.githubusercontent.com/cielo-h/vpmRepo/master/None/vpm.cielo.tool-1.1.0.zip'')]"
    by code_simp
  from versions_coexist_last_wins [OF s]
  have "index_at (packages st) = map_of (rev (contributions ?r ?t))" by blast
  with a b keys s show ?thesis by simp
qed

section \<open>Files the scan ignores\<close>

lemma process_file_not_qualifies:
  "\<not> qualifies (fst e) \<Longrightarrow> process_file r d e st = Inr st"
  by (auto simp: process_file_def qualifies_def Let_def)

lemma scan_files_filter:
  "scan_files r d (filter (\<lambda>e. qualifies (fst e)) es) st = scan_files r d es st"
  by (induction es arbitrary: st) (auto simp: process_file_not_qualifies split: sum.splits)

lemma scan_items_append:
  "scan_items r (t1 @ t2) st =
     (case scan_items r t1 st of Inl e \<Rightarrow> Inl e | Inr st' \<Rightarrow> scan_items r t2 st')"
  by (induction t1 arbitrary: st) (simp_all split: sum.splits)

lemma prune_Cons:
  "prune (item # t) = prune [item] @ prune t"
  by (simp add: prune_def)

lemma scan_items_prune_item:
  "scan_items r (prune [item]) st = scan_item r item st"
proof (cases "snd item")
  case File
  then show ?thesis by (simp add: prune_def scan_item_def split: sum.splits)
next
  case (Dir es)
  then show ?thesis
    by (simp add: prune_def scan_item_def scan_files_filter split: sum.splits)
qed

lemma scan_items_prune:
  "scan_items r (prune t) st = scan_items r t st"
proof (induction t arbitrary: st)
  case Nil
  then show ?case by (simp add: prune_def)
next
  case (Cons item t)
  show ?case
    by (subst prune_Cons)
       (simp add: scan_items_append scan_items_prune_item Cons.IH split: sum.splits)
qed

text \<open>
  Claim C7. A file whose name does not start with \<open>vpm.\<close> or does not end with \<open>.zip\<close>
  contributes nothing, and no file of a hidden top-level directory is represented: the
  scan of a tree gives what the scan of the tree without these files and directories
  gives (mapping, printed lines, or exception), and every record of the result was built
  from a file that passes both filename tests and lies in a directory whose name does
  not start with a dot.
\<close>

theorem ignored_files_contribute_nothing:
  "scan_packages r (prune t) = scan_packages r t \<and>
   (\<forall>st k p v vi. scan_packages r t = Inr st \<longrightarrow> (k, p) \<in> set (packages st) \<longrightarrow>
      (v, vi) \<in> set (versions p) \<longrightarrow>
      (\<exists>d entries e. (d, Dir entries) \<in> set t \<and> \<not> startswith d ''.'' \<and> e \<in> set entries \<and>
         startswith (fst e) ''vpm.'' \<and> endswith (fst e) ''.zip'' \<and>
         contribution r d e = Some ((k, v), vi)))"
proof (intro conjI allI impI)
  show "scan_packages r (prune t) = scan_packages r t"
    by (simp add: scan_packages_def scan_items_prune)
next
  fix st k p v vi
  assume s: "scan_packages r t = Inr st" and kp: "(k, p) \<in> set (packages st)"
    and v: "(v, vi) \<in> set (versions p)"
  from scan_packages_provenance [OF s kp v] obtain d e where
    de: "(d, e) \<in> set (scanned t)" and c: "contribution r d e = Some ((k, v), vi)"
    by auto
  from de obtain entries where
    t: "(d, Dir entries) \<in> set t" "\<not> startswith d ''.''" "e \<in> set entries"
    unfolding scanned_iff by blast
  from contribution_SomeD [OF c] have "startswith (fst e) ''vpm.''" "endswith (fst e) ''.zip''"
    by (simp_all add: qualifies_def)
  with t c show "\<exists>d entries e. (d, Dir entries) \<in> set t \<and> \<not> startswith d ''.'' \<and> e \<in> set entries \<and>
         startswith (fst e) ''vpm.'' \<and> endswith (fst e) ''.zip'' \<and>
         contribution r d e = Some ((k, v), vi)"
    by blast
qed

theorem ignored_files_contribute_nothing_witness:
  "scan_packages (\<lambda>_. [])
     [(''.git'', Dir [(''vpm.cielo.secret-3.0.0.zip'',
                      Zip [(''package.json'', Inr (PDict [(''name'', PStr ''com.cielo.secret'')]))])]),
      (''README.md'', File),
      (''Tool'', Dir [(''tool-1.0.0.zip'',
                      Zip [(''package.json'', Inr (PDict [(''name'', PStr ''com.cielo.a'')]))]),
                     (''vpm.cielo.tool-1.0.0.tar'',
                      Zip [(''package.json'', Inr (PDict [(''name'', PStr ''com.cielo.b'')]))]),
                     (''vpm.cielo.tool-1.1.0.zip'',
                      Zip [(''package.json'', Inr (PDict [(''name'', PStr ''com.cielo.tool'')]))])])]
   = scan_packages (\<lambda>_. [])
     [(''README.md'', File),
      (''Tool'', Dir [(''vpm.cielo.tool-1.1.0.zip'',
                      Zip [(''package.json'', Inr (PDict [(''name'', PStr ''com.cielo.tool'')]))])])] \<and>
   map (\<lambda>kp. (fst kp, map fst (versions (snd kp))))
     (packages (projr (scan_packages (\<lambda>_. [])
        [(''.git'', Dir [(''vpm.cielo.secret-3.0.0.zip'',
                      Zip [(''package.json'', Inr (PDict [(''name'', PStr ''com.cielo.secret'')]))])]),
         (''README.md'', File),
         (''Tool'', Dir [(''tool-1.0.0.zip'',
                      Zip [(''package.json'', Inr (PDict [(''name'', PStr ''com.cielo.a'')]))]),
                     (''vpm.cielo.tool-1.0.0.tar'',
                      Zip [(''package.json'', Inr (PDict [(''name'', PStr ''com.cielo.b'')]))]),
                     (''vpm.cielo.tool-1.1.0.zip'',
                      Zip [(''package.json'', Inr (PDict [(''name'', PStr ''com.cielo.tool'')]))])])])))
   = [(KStr ''com.cielo.tool'', [''1.1.0''])]"
proof -
  let ?r = "\<lambda>_::pyval. []::string"
  let ?t = "[(''.git'', Dir [(''vpm.cielo.secret-3.0.0.zip'',
                      Zip [(''package.json'', Inr (PDict [(''name'', PStr ''com.cielo.secret'')]))])]),
      (''README.md'', File),
      (''Tool'', Dir [(''tool-1.0.0.zip'',
                      Zip [(''package.json'', Inr (PDict [(''name'', PStr ''com.cielo.a'')]))]),
                     (''vpm.cielo.tool-1.0.0.tar'',
                      Zip [(''package.json'', Inr (PDict [(''name'', PStr ''com.cielo.b'')]))]),
                     (''vpm.cielo.tool-1.1.0.zip'',
                      Zip [(''package.json'', Inr (PDict [(''name'', PStr ''com.cielo.tool'')]))])])]"
  have p: "prune ?t =
     [(''README.md'', File),
      (''Tool'', Dir [(''vpm.cielo.tool-1.1.0.zip'',
                      Zip [(''package.json'', Inr (PDict [(''name'', PStr ''com.cielo.tool'')]))])])]"
    by code_simp
  have k: "map (\<lambda>kp. (fst kp, map fst (versions (snd kp))))
      (packages (projr (scan_packages ?r ?t))) = [(KStr ''com.cielo.tool'', [''1.1.0''])]"
    by code_simp
  from ignored_files_contribute_nothing [of ?r ?t]
  have "scan_packages ?r (prune ?t) = scan_packages ?r ?t" by blast
  with p k show ?thesis by simp
qed

section \<open>Missing fields\<close>

lemma process_file_adds:
  assumes "qualifies filename" "extract_version_from_filename filename = Some v"
    "metadata_of d (filename, ar) = PDict info" "truthy (dict_get info ''name'')"
    "hash_key (dict_get info ''name'') = Inr k"
  shows "\<exists>st'. process_file r d (filename, ar) st = Inr st' \<and>
     packages st' =
       insert_version k v
         (build_version_info info v
            (''https://raw.githubusercontent.com/cielo-h/vpmRepo/master/'' @
             py_str r (dict_get info ''displayName'') @ ''/'' @ filename))
         (packages st)"
proof -
  obtain pi out where x: "extract_package_info (path_join d filename) ar = (pi, out)"
    by (cases "extract_package_info (path_join d filename) ar")
  with assms(3) have pi: "pi = PDict info" by (simp add: metadata_of_def)
  from assms(1,2) x pi add_version_Inr [OF assms(4,5)] show ?thesis
    by (simp add: process_file_def qualifies_def Let_def print_def)
qed

lemma contribution_intro:
  assumes "qualifies filename" "extract_version_from_filename filename = Some v"
    "metadata_of d (filename, ar) = PDict info" "truthy (dict_get info ''name'')"
    "hash_key (dict_get info ''name'') = Inr k"
  shows "contribution r d (filename, ar) =
     Some ((k, v),
           build_version_info info v
             (''https://raw.githubusercontent.com/cielo-h/vpmRepo/master/'' @
              py_str r (dict_get info ''displayName'') @ ''/'' @ filename))"
  using assms by (simp add: contribution_def url_expand)

lemma scanned_append: "scanned (t1 @ t2) = scanned t1 @ scanned t2"
  by (simp add: scanned_def)

lemma scanned_entry:
  assumes "\<not> startswith d ''.''"
  shows "scanned (t1 @ (d, Dir (es1 @ e # es2)) # t2) =
     (scanned t1 @ map (Pair d) es1) @ (d, e) # (map (Pair d) es2 @ scanned t2)"
  using assms by (simp add: scanned_def)

text \<open>The record of an entry stays in place when no entry scanned later has its key and version.\<close>

lemma index_at_last_contribution:
  assumes "scan_packages r t = Inr st" "scanned t = before @ de # after"
    "contribution r (fst de) (snd de) = Some (kv, vi)"
    "\<forall>x\<in>set after. \<forall>vi'. contribution r (fst x) (snd x) \<noteq> Some (kv, vi')"
  shows "index_at (packages st) kv = Some vi"
proof -
  let ?f = "\<lambda>de. contribution r (fst de) (snd de)"
  have c: "contributions r t =
      List.map_filter ?f before @ (kv, vi) # List.map_filter ?f after"
    using assms(2,3) by (simp add: contributions_def map_filter_append List.map_filter_simps)
  have "kv \<notin> fst ` set (List.map_filter ?f after)"
  proof
    assume "kv \<in> fst ` set (List.map_filter ?f after)"
    then obtain vi' where "(kv, vi') \<in> set (List.map_filter ?f after)" by auto
    then obtain x where "x \<in> set after" "?f x = Some (kv, vi')"
      by (auto simp: List.map_filter_def)
    with assms(4) show False by blast
  qed
  then have "map_of (rev (List.map_filter ?f after)) kv = None"
    by (simp add: map_of_eq_None_iff)
  then have "map_of (rev (contributions r t)) kv = Some vi"
    unfolding c by (simp add: map_of_append map_add_def)
  with scan_packages_index [OF assms(1)] show ?thesis by simp
qed

text \<open>
  Claim C9. Metadata without \<open>displayName\<close>, \<open>unity\<close> or \<open>description\<close> does not make
  the scanner skip the file. Take a file of a scanned directory that passes the filename
  tests, has a version in its name and metadata with a usable name, in a tree whose scan
  returns. The loop body returns normally on it; the emitted index has a record at the
  file's package key and version; when no file scanned later has the same key and
  version, that record is the one built from this file; and in the record built from
  this file each of the three fields missing from the metadata is \<open>None\<close>, and without a
  \<open>displayName\<close> the URL has the text \<open>None\<close> where the plugin name goes.
\<close>

theorem missing_fields_become_none:
  assumes "generate_index r t = Inr ix"
    "t = t1 @ (d, Dir (es1 @ (filename, ar) # es2)) # t2" "\<not> startswith d ''.''"
    "endswith filename ''.zip''" "startswith filename ''vpm.''"
    "extract_version_from_filename filename = Some v"
    "metadata_of d (filename, ar) = PDict info" "truthy (dict_get info ''name'')"
    "hash_key (dict_get info ''name'') = Inr k"
  shows "\<exists>vi.
     vi = build_version_info info v
            (''https://raw.githubusercontent.com/cielo-h/vpmRepo/master/'' @
             py_str r (dict_get info ''displayName'') @ ''/'' @ filename) \<and>
     (\<forall>st0. \<exists>st'. process_file r d (filename, ar) st0 = Inr st' \<and>
        index_at (packages st') (k, v) = Some vi) \<and>
     index_at (ix_packages ix) (k, v) \<noteq> None \<and>
     ((\<forall>x\<in>set (map (Pair d) es2 @ scanned t2).
          \<forall>vi'. contribution r (fst x) (snd x) \<noteq> Some ((k, v), vi')) \<longrightarrow>
        index_at (ix_packages ix) (k, v) = Some vi) \<and>
     (map_of info ''displayName'' = None \<longrightarrow>
        map_of vi ''displayName'' = Some PNone \<and>
        map_of vi ''url'' =
          Some (PStr (''https://raw.githubusercontent.com/cielo-h/vpmRepo/master/None/'' @ filename))) \<and>
     (map_of info ''unity'' = None \<longrightarrow> map_of vi ''unity'' = Some PNone) \<and>
     (map_of info ''description'' = None \<longrightarrow> map_of vi ''description'' = Some PNone)"
proof -
  let ?vi = "build_version_info info v
            (''https://raw.githubusercontent.com/cielo-h/vpmRepo/master/'' @
             py_str r (dict_get info ''displayName'') @ ''/'' @ filename)"
  let ?after = "map (Pair d) es2 @ scanned t2"
  from generate_index_Inr [OF assms(1)] obtain st where
    st: "scan_packages r t = Inr st" "ix_packages ix = packages st" by blast
  from assms(4,5) have q: "qualifies filename" by (simp add: qualifies_def)
  have c: "contribution r d (filename, ar) = Some ((k, v), ?vi)"
    using q assms(6-9) by (rule contribution_intro)
  have sc: "scanned t = (scanned t1 @ map (Pair d) es1) @ (d, filename, ar) # ?after"
    unfolding assms(2) using assms(3) by (rule scanned_entry)
  have body: "\<forall>st0. \<exists>st'. process_file r d (filename, ar) st0 = Inr st' \<and>
        index_at (packages st') (k, v) = Some ?vi"
  proof
    fix st0
    from process_file_adds [OF q assms(6-9), of r st0] obtain st' where
      "process_file r d (filename, ar) st0 = Inr st'"
      "packages st' = insert_version k v ?vi (packages st0)"
      by blast
    then show "\<exists>st'. process_file r d (filename, ar) st0 = Inr st' \<and>
        index_at (packages st') (k, v) = Some ?vi"
      by (simp add: index_at_insert_version)
  qed
  have "((k, v), ?vi) \<in> set (contributions r t)"
    using c unfolding contributions_def sc
    by (simp add: map_filter_append List.map_filter_simps)
  then have "(k, v) \<in> fst ` set (rev (contributions r t))" by force
  then have "map_of (rev (contributions r t)) (k, v) \<noteq> None"
    by (simp only: map_of_eq_None_iff not_not)
  with scan_packages_index [OF st(1)] have present: "index_at (ix_packages ix) (k, v) \<noteq> None"
    unfolding st(2) by simp
  have last: "(\<forall>x\<in>set ?after. \<forall>vi'. contribution r (fst x) (snd x) \<noteq> Some ((k, v), vi')) \<longrightarrow>
        index_at (ix_packages ix) (k, v) = Some ?vi"
  proof
    assume "\<forall>x\<in>set ?after. \<forall>vi'. contribution r (fst x) (snd x) \<noteq> Some ((k, v), vi')"
    from index_at_last_contribution [OF st(1) sc _ this] c st(2)
    show "index_at (ix_packages ix) (k, v) = Some ?vi" by simp
  qed
  have dn: "map_of info ''displayName'' = None \<longrightarrow>
        map_of ?vi ''displayName'' = Some PNone \<and>
        map_of ?vi ''url'' =
          Some (PStr (''https://raw.githubusercontent.com/cielo-h/vpmRepo/master/None/'' @ filename))"
    by (simp add: build_version_info_fixed dict_get_def)
  have un: "map_of info ''unity'' = None \<longrightarrow> map_of ?vi ''unity'' = Some PNone"
    by (simp add: build_version_info_fixed dict_get_def)
  have de: "map_of info ''description'' = None \<longrightarrow> map_of ?vi ''description'' = Some PNone"
    by (simp add: build_version_info_fixed dict_get_def)
  from body present last dn un de show ?thesis
    by (intro exI [of _ ?vi] conjI refl)
qed


theorem missing_fields_become_none_witness:
  "\<exists>ix. generate_index (\<lambda>_. [])
       [(''README.md'', File),
        (''Tool'', Dir [(''notes.txt'', Unreadable ''not a zip file''),
                       (''vpm.cielo.tool-1.0.0.zip'',
                        Zip [(''package.json'', Inr (PDict [(''name'', PStr ''com.cielo.tool'')]))]),
                       (''vpm.cielo.other-2.0.0.zip'',
                        Zip [(''package.json'',
                              Inr (PDict [(''name'', PStr ''com.cielo.other''),
                                          (''displayName'', PStr ''Other'')]))])])]
       = Inr ix \<and>
     index_at (ix_packages ix) (KStr ''com.cielo.tool'', ''1.0.0'') =
       Some [(''name'', PStr ''com.cielo.tool''), (''displayName'', PNone),
             (''version'', PStr ''1.0.0''), (''unity'', PNone), (''description'', PNone),
             (''url'', PStr ''https://raw.githubusercontent.com/cielo-h/vpmRepo/master/None/vpm.cielo.tool-1.0.0.zip'')]"
proof -
  let ?r = "\<lambda>_::pyval. []::string"
  let ?fn = "''vpm.cielo.tool-1.0.0.zip''"
  let ?info = "[(''name'', PStr ''com.cielo.tool'')]"
  let ?ar = "Zip [(''package.json'', Inr (PDict ?info))]"
  let ?e2 = "(''vpm.cielo.other-2.0.0.zip'',
                        Zip [(''package.json'',
                              Inr (PDict [(''name'', PStr ''com.cielo.other''),
                                          (''displayName'', PStr ''Other'')]))])"
  let ?t1 = "[(''README.md'', File)] :: tree"
  let ?es1 = "[(''notes.txt'', Unreadable ''not a zip file'')]"
  let ?t = "?t1 @ (''Tool'', Dir (?es1 @ (?fn, ?ar) # [?e2])) # []"
  have "\<not> isl (generate_index ?r ?t)" by code_simp
  then obtain ix where g: "generate_index ?r ?t = Inr ix"
    by (cases "generate_index ?r ?t") auto
  have h: "\<not> startswith ''Tool'' ''.''" "endswith ?fn ''.zip''" "startswith ?fn ''vpm.''"
    "extract_version_from_filename ?fn = Some ''1.0.0''"
    "metadata_of ''Tool'' (?fn, ?ar) = PDict ?info"
    "truthy (dict_get ?info ''name'')"
    "hash_key (dict_get ?info ''name'') = Inr (KStr ''com.cielo.tool'')"
    by code_simp+
  have ce: "map_option fst (contribution ?r ''Tool'' ?e2) = Some (KStr ''com.cielo.other'', ''2.0.0'')"
    by code_simp
  have nl: "\<forall>x\<in>set (map (Pair ''Tool'') [?e2] @ scanned []).
      \<forall>vi'. contribution ?r (fst x) (snd x) \<noteq> Some ((KStr ''com.cielo.tool'', ''1.0.0''), vi')"
    using ce by (auto simp: scanned_def)
  from missing_fields_become_none [OF g refl h] nl
  have "index_at (ix_packages ix) (KStr ''com.cielo.tool'', ''1.0.0'') =
      Some (build_version_info ?info ''1.0.0''
        (''https://raw.githubusercontent.com/cielo-h/vpmRepo/master/'' @
             py_str ?r (dict_get ?info ''displayName'') @ ''/'' @ ?fn))"
    by blast
  moreover have "build_version_info ?info ''1.0.0''
        (''https://raw.githubusercontent.com/cielo-h/vpmRepo/master/'' @
             py_str ?r (dict_get ?info ''displayName'') @ ''/'' @ ?fn) =
       [(''name'', PStr ''com.cielo.tool''), (''displayName'', PNone),
             (''version'', PStr ''1.0.0''), (''unity'', PNone), (''description'', PNone),
             (''url'', PStr ''https://raw.githubusercontent.com/cielo-h/vpmRepo/master/None/vpm.cielo.tool-1.0.0.zip'')]"
    by code_simp
  ultimately show ?thesis using g by simp
qed

end
